theory Spec2Isabelle
  imports Complex_Main "HOL-Library.Log_Nat"
begin

section \<open>JavaScript numbers\<close>

text \<open>
  The matching service computes with JavaScript numbers, which are IEEE 754 binary64
  values. A finite double is modelled by the rational it denotes, the two infinities and
  NaN are separate values. Every arithmetic operation rounds its exact result to the
  nearest double, ties to the even significand (\<open>rnd64\<close>), and overflows to an infinity
  (\<open>to_double\<close>). The two zeros of binary64 are identified: no function below divides by a
  zero of negative sign, which is the only place where they could be told apart.
\<close>

definition ilog2 :: "rat \<Rightarrow> int" where
  \<comment> \<open>for \<open>0 < q\<close>, the exponent \<open>e\<close> with \<open>2 powi e \<le> q < 2 powi (e + 1)\<close>\<close>
  "ilog2 q = (let (a, b) = quotient_of q; d = bitlen a - bitlen b
              in if 2 powi d \<le> q then d else d - 1)"

definition rhe :: "rat \<Rightarrow> int" where
  \<comment> \<open>nearest integer, ties to even\<close>
  "rhe x = (let f = \<lfloor>x\<rfloor>; r = x - of_int f
            in if r < 1 / 2 then f else if 1 / 2 < r then f + 1
               else if even f then f else f + 1)"

definition ulp_exp :: "rat \<Rightarrow> int" where
  \<comment> \<open>exponent of the unit in the last place: 53 significant bits, gradual underflow
      below \<open>2 powi (- 1022)\<close>\<close>
  "ulp_exp q = (if q = 0 then - 1074 else max (- 1074) (ilog2 \<bar>q\<bar> - 52))"

definition rnd64 :: "rat \<Rightarrow> rat" where
  "rnd64 q = (if q = 0 then 0 else let p = ulp_exp q in of_int (rhe (q / 2 powi p)) * 2 powi p)"

datatype jsnum = Fin rat | PInf | NInf | NaN

definition to_double :: "rat \<Rightarrow> jsnum" where
  \<comment> \<open>a rounded magnitude of \<open>2 powi 1024\<close> or more is an infinity\<close>
  "to_double q = (let r = rnd64 q
                  in if r \<noteq> 0 \<and> 1024 \<le> ilog2 \<bar>r\<bar> then (if 0 < r then PInf else NInf)
                     else Fin r)"

definition num :: "int \<Rightarrow> jsnum" where
  \<comment> \<open>an integer literal or counter; exact below \<open>2 ^ 53\<close>\<close>
  "num i = to_double (of_int i)"

definition lit :: "rat \<Rightarrow> jsnum" where
  \<comment> \<open>a decimal literal of the source, such as \<open>0.4\<close>\<close>
  "lit q = to_double q"

fun jsgn :: "jsnum \<Rightarrow> int" where
  "jsgn (Fin a) = (if a < 0 then - 1 else if a = 0 then 0 else 1)"
| "jsgn PInf = 1"
| "jsgn NInf = - 1"
| "jsgn NaN = 0"

definition inf_of_sign :: "int \<Rightarrow> jsnum" where
  "inf_of_sign s = (if s = 0 then NaN else if 0 < s then PInf else NInf)"

fun jadd :: "jsnum \<Rightarrow> jsnum \<Rightarrow> jsnum" where
  "jadd (Fin a) (Fin b) = to_double (a + b)"
| "jadd NaN y = NaN"
| "jadd x NaN = NaN"
| "jadd PInf NInf = NaN"
| "jadd NInf PInf = NaN"
| "jadd PInf y = PInf"
| "jadd x PInf = PInf"
| "jadd NInf y = NInf"
| "jadd x NInf = NInf"

fun jmul :: "jsnum \<Rightarrow> jsnum \<Rightarrow> jsnum" where
  "jmul (Fin a) (Fin b) = to_double (a * b)"
| "jmul NaN y = NaN"
| "jmul x NaN = NaN"
| "jmul x y = inf_of_sign (jsgn x * jsgn y)"

fun jdiv :: "jsnum \<Rightarrow> jsnum \<Rightarrow> jsnum" where
  "jdiv (Fin a) (Fin b) =
     (if b = 0 then (if a = 0 then NaN else if 0 < a then PInf else NInf)
      else to_double (a / b))"
| "jdiv NaN y = NaN"
| "jdiv x NaN = NaN"
| "jdiv (Fin a) y = Fin 0"
| "jdiv x (Fin b) = inf_of_sign (jsgn x * (if b < 0 then - 1 else 1))"
| "jdiv x y = NaN"

function isqrt :: "int \<Rightarrow> int" where
  \<comment> \<open>the integer square root, by binary digits\<close>
  "isqrt n = (if n < 4 then (if n \<le> 0 then 0 else 1)
              else let r = 2 * isqrt (n div 4)
                   in if (r + 1) * (r + 1) \<le> n then r + 1 else r)"
  by pat_completeness auto
termination
  by (relation "measure nat") auto

declare isqrt.simps [simp del]

definition sqrt64 :: "rat \<Rightarrow> rat" where
  \<comment> \<open>the double nearest to the square root of \<open>a\<close>, for \<open>0 \<le> a\<close>\<close>
  "sqrt64 a =
     (if a = 0 then 0
      else let p = max (- 1074) (ilog2 a div 2 - 52);
               x = a / 2 powi (2 * p);
               n = isqrt \<lfloor>x\<rfloor>;
               h = (of_int n + 1 / 2) * (of_int n + 1 / 2);
               m = (if x < h then n else if h < x then n + 1
                    else if even n then n else n + 1)
           in of_int m * 2 powi p)"

fun jsqrt :: "jsnum \<Rightarrow> jsnum" where
  "jsqrt (Fin a) = (if a < 0 then NaN else Fin (sqrt64 a))"
| "jsqrt PInf = PInf"
| "jsqrt NInf = NaN"
| "jsqrt NaN = NaN"

fun jround :: "jsnum \<Rightarrow> jsnum" where
  \<comment> \<open>\<open>Math.round\<close>: the nearest integer, ties towards plus infinity\<close>
  "jround (Fin a) = Fin (of_int \<lfloor>a + 1 / 2\<rfloor>)"
| "jround x = x"

fun jge :: "jsnum \<Rightarrow> jsnum \<Rightarrow> bool" where
  \<comment> \<open>\<open>x >= y\<close>; false as soon as one side is NaN\<close>
  "jge (Fin a) (Fin b) = (b \<le> a)"
| "jge NaN y = False"
| "jge x NaN = False"
| "jge PInf y = True"
| "jge x NInf = True"
| "jge x y = False"

fun jmax :: "jsnum \<Rightarrow> jsnum \<Rightarrow> jsnum" where
  "jmax NaN y = NaN"
| "jmax x NaN = NaN"
| "jmax x y = (if jge x y then x else y)"

fun jmin :: "jsnum \<Rightarrow> jsnum \<Rightarrow> jsnum" where
  "jmin NaN y = NaN"
| "jmin x NaN = NaN"
| "jmin x y = (if jge y x then x else y)"

fun is_zero :: "jsnum \<Rightarrow> bool" where
  \<comment> \<open>\<open>x === 0\<close>\<close>
  "is_zero (Fin a) = (a = 0)"
| "is_zero x = False"


section \<open>Strings\<close>

text \<open>
  A string is a list of code units; the model covers the code units below 256 (ASCII and
  Latin-1), which is what the type \<open>char\<close> holds. Among them, the white space of
  \<open>trim\<close> and of the regular expression class \<open>\s\<close> is tab, line feed, vertical tab,
  form feed, carriage return, space and the no-break space.
\<close>

definition is_space :: "char \<Rightarrow> bool" where
  "is_space c = (c \<in> set [CHR 0x09, CHR 0x0A, CHR 0x0B, CHR 0x0C, CHR 0x0D, CHR 0x20, CHR 0xA0])"

definition lower_char :: "char \<Rightarrow> char" where
  "lower_char c =
     (let n = (of_char c :: nat)
      in if (65 \<le> n \<and> n \<le> 90) \<or> (192 \<le> n \<and> n \<le> 222 \<and> n \<noteq> 215)
         then char_of (n + 32) else c)"

definition toLowerCase :: "string \<Rightarrow> string" where
  "toLowerCase s = map lower_char s"

definition trim :: "string \<Rightarrow> string" where
  "trim s = rev (dropWhile is_space (rev (dropWhile is_space s)))"

fun startsWith :: "string \<Rightarrow> string \<Rightarrow> bool" where
  "startsWith s [] = True"
| "startsWith [] (p # ps) = False"
| "startsWith (c # cs) (p # ps) = (c = p \<and> startsWith cs ps)"

fun str_includes :: "string \<Rightarrow> string \<Rightarrow> bool" where
  \<comment> \<open>\<open>s.includes(t)\<close>: \<open>t\<close> occurs in \<open>s\<close> as a contiguous substring\<close>
  "str_includes [] t = (t = [])"
| "str_includes (c # cs) t = (startsWith (c # cs) t \<or> str_includes cs t)"

fun indexOf :: "string \<Rightarrow> char \<Rightarrow> nat option" where
  \<comment> \<open>\<open>None\<close> stands for the result \<open>-1\<close>\<close>
  "indexOf [] x = None"
| "indexOf (c # cs) x = (if c = x then Some 0 else map_option Suc (indexOf cs x))"

fun lastIndexOf :: "string \<Rightarrow> char \<Rightarrow> nat option" where
  "lastIndexOf [] x = None"
| "lastIndexOf (c # cs) x =
     (case lastIndexOf cs x of Some i \<Rightarrow> Some (Suc i)
      | None \<Rightarrow> if c = x then Some 0 else None)"

definition substring :: "string \<Rightarrow> nat \<Rightarrow> nat \<Rightarrow> string" where
  \<comment> \<open>\<open>s.substring(i, j)\<close> for \<open>i \<le> j\<close>\<close>
  "substring s i j = take (j - i) (drop i s)"

fun join :: "string \<Rightarrow> string list \<Rightarrow> string" where
  "join sep [] = []"
| "join sep [x] = x"
| "join sep (x # y # ys) = x @ sep @ join sep (y # ys)"

fun splitOn :: "(char \<Rightarrow> bool) \<Rightarrow> string \<Rightarrow> string \<Rightarrow> string list" where
  \<comment> \<open>\<open>split\<close> at every single separator character; the first argument of the
      recursion is the piece read so far, reversed\<close>
  "splitOn sep cur [] = [rev cur]"
| "splitOn sep cur (c # cs) =
     (if sep c then rev cur # splitOn sep [] cs else splitOn sep (c # cur) cs)"

fun splitRuns :: "(char \<Rightarrow> bool) \<Rightarrow> string \<Rightarrow> bool \<Rightarrow> string \<Rightarrow> string list" where
  \<comment> \<open>\<open>split\<close> at every maximal run of separator characters, as \<open>split(/\s+/)\<close> does;
      the flag says that the last character read was a separator\<close>
  "splitRuns sep cur insep [] = [rev cur]"
| "splitRuns sep cur insep (c # cs) =
     (if sep c then (if insep then splitRuns sep cur True cs
                     else rev cur # splitRuns sep [] True cs)
      else splitRuns sep (c # cur) False cs)"

fun dedup :: "'a list \<Rightarrow> 'a list" where
  \<comment> \<open>\<open>Array.from(new Set(xs))\<close>: the first occurrence of each element, in order\<close>
  "dedup [] = []"
| "dedup (x # xs) = x # dedup (filter (\<lambda>y. y \<noteq> x) xs)"


section \<open>The matching service\<close>

datatype error = Error string | TypeError string | SyntaxError string

text \<open>
  The generative and embedding backends are outside the engine. A call either returns a
  value or fails with an error whose \<open>message\<close> may be absent.
\<close>

datatype 'a outcome = Returned 'a | Failed "string option"

definition quota_error :: "string option \<Rightarrow> bool" where
  \<comment> \<open>\<open>error.message && (error.message.includes('quota') || error.message.includes('429'))\<close>\<close>
  "quota_error msg =
     (case msg of None \<Rightarrow> False
      | Some m \<Rightarrow> str_includes m ''quota'' \<or> str_includes m ''429'')"

subsection \<open>parseAIJsonResponse\<close>

datatype log_entry = Logged_error error | Logged_text string

function stripFences :: "string \<Rightarrow> string" where
  \<comment> \<open>\<open>text.replace(/```json|```/g, '')\<close>\<close>
  "stripFences s =
     (if s = [] then []
      else if startsWith s [CHR 0x60, CHR 0x60, CHR 0x60, CHR ''j'', CHR ''s'', CHR ''o'', CHR ''n'']
        then stripFences (drop 7 s)
      else if startsWith s [CHR 0x60, CHR 0x60, CHR 0x60] then stripFences (drop 3 s)
      else hd s # stripFences (tl s))"
  by pat_completeness auto
termination
  by (relation "measure length") auto

declare stripFences.simps [simp del]

definition no_json :: error where
  "no_json = Error ''No valid JSON found in AI response''"

definition parseAIJsonResponse ::
  "(string \<Rightarrow> error + 'j) \<Rightarrow> string \<Rightarrow> (error + 'j) \<times> log_entry list" where
  \<comment> \<open>the first argument is \<open>JSON.parse\<close>; the second component of the result is what
      the function writes to the error log\<close>
  "parseAIJsonResponse parse text =
     (let cleaned = trim (stripFences text);
          fromArray =
            (case (indexOf cleaned CHR ''['', lastIndexOf cleaned CHR '']'') of
               (Some arrayStart, Some arrayEnd) \<Rightarrow>
                 if arrayStart < arrayEnd then parse (substring cleaned arrayStart (arrayEnd + 1))
                 else Inl no_json
             | _ \<Rightarrow> Inl no_json);
          res =
            (case (indexOf cleaned CHR ''{'', lastIndexOf cleaned CHR ''}'') of
               (Some jsonStart, Some jsonEnd) \<Rightarrow>
                 if jsonEnd < jsonStart then fromArray
                 else parse (substring cleaned jsonStart (jsonEnd + 1))
             | _ \<Rightarrow> fromArray)
      in case res of
           Inr v \<Rightarrow> (Inr v, [])
         | Inl e \<Rightarrow> (Inl e, [Logged_error e, Logged_text (take 500 text)]))"

subsection \<open>cosineSimilarity\<close>

fun cosine_loop ::
  "jsnum list \<Rightarrow> jsnum list \<Rightarrow> jsnum \<times> jsnum \<times> jsnum \<Rightarrow> jsnum \<times> jsnum \<times> jsnum" where
  "cosine_loop (a # as) (b # bs) (dotProduct, normA, normB) =
     cosine_loop as bs
       (jadd dotProduct (jmul a b), jadd normA (jmul a a), jadd normB (jmul b b))"
| "cosine_loop as bs acc = acc"

definition cosineSimilarity :: "jsnum list \<Rightarrow> jsnum list \<Rightarrow> error + jsnum" where
  "cosineSimilarity vecA vecB =
     (if length vecA \<noteq> length vecB then Inl (Error ''Vectors must have the same length'')
      else let (dotProduct, sqA, sqB) = cosine_loop vecA vecB (num 0, num 0, num 0);
               normA = jsqrt sqA;
               normB = jsqrt sqB
           in if is_zero normA \<or> is_zero normB then Inr (num 0)
              else Inr (jdiv dotProduct (jmul normA normB)))"

subsection \<open>generateEmbedding and its fallback\<close>

text \<open>
  \<open>wordCount\<close> is an ordinary object used as a dictionary. Its own properties are kept in
  creation order. Two words meet properties inherited from \<open>Object.prototype\<close>: for
  \<open>constructor\<close> the expression \<open>(wordCount[word] || 0) + 1\<close> reads the inherited function and
  stores a string, which later divides to NaN; for \<open>__proto__\<close> the assignment of that string
  is ignored and no property is created. \<open>Object.keys\<close> lists the keys that are array
  indices (canonical decimal numerals below \<open>2 ^ 32 - 1\<close>) first, in ascending numeric
  order, and then the other keys in creation order.
\<close>

datatype count = Count nat | NotANumber

fun bump :: "string \<Rightarrow> (string \<times> count) list \<Rightarrow> (string \<times> count) list" where
  "bump w [] = [(w, if w = ''constructor'' then NotANumber else Count 1)]"
| "bump w ((k, v) # kvs) =
     (if k = w then (k, case v of Count n \<Rightarrow> Count (Suc n) | NotANumber \<Rightarrow> NotANumber) # kvs
      else (k, v) # bump w kvs)"

definition countWord :: "(string \<times> count) list \<Rightarrow> string \<Rightarrow> (string \<times> count) list" where
  \<comment> \<open>the body of the \<open>forEach\<close>\<close>
  "countWord wordCount word =
     (if 2 < length word \<and> word \<noteq> ''__proto__'' then bump word wordCount else wordCount)"

definition is_digit :: "char \<Rightarrow> bool" where
  "is_digit c = (48 \<le> (of_char c :: nat) \<and> (of_char c :: nat) \<le> 57)"

definition decimal :: "string \<Rightarrow> int" where
  "decimal w = foldl (\<lambda>n c. 10 * n + (of_char c - 48)) 0 w"

definition is_array_index :: "string \<Rightarrow> bool" where
  "is_array_index w =
     (w \<noteq> [] \<and> list_all is_digit w \<and> (w = ''0'' \<or> hd w \<noteq> CHR ''0'') \<and> decimal w < 4294967295)"

definition objectKeys :: "(string \<times> 'v) list \<Rightarrow> string list" where
  "objectKeys obj =
     (let ks = map fst obj
      in sort_key decimal (filter is_array_index ks) @ filter (\<lambda>k. \<not> is_array_index k) ks)"

fun count_num :: "count option \<Rightarrow> jsnum" where
  "count_num (Some (Count n)) = num (int n)"
| "count_num other = NaN"

definition generateFallbackEmbedding :: "string \<Rightarrow> jsnum list" where
  "generateFallbackEmbedding text =
     (let words = splitRuns is_space [] False (toLowerCase text);
          wordCount = foldl countWord [] words;
          totalWords = length words;
          uniqueWords = objectKeys wordCount
      in map (\<lambda>i. if i < length uniqueWords
                    then jdiv (count_num (map_of wordCount (uniqueWords ! i))) (num (int totalWords))
                    else num 0)
             [0..<50])"

definition generateEmbedding ::
  "(string \<Rightarrow> jsnum list outcome) \<Rightarrow> string \<Rightarrow> error + jsnum list" where
  \<comment> \<open>the first argument is the embedding backend, \<open>embedContent\<close>\<close>
  "generateEmbedding embedContent text =
     (case embedContent (take 8000 text) of
        Returned vs \<Rightarrow> Inr vs
      | Failed msg \<Rightarrow>
          if quota_error msg then Inr (generateFallbackEmbedding text)
          else Inl (Error ''Failed to generate embedding''))"


subsection \<open>The dimension scorers\<close>

text \<open>
  Of a skill the scorers read the name only. Dates are stored as \<open>Date\<close> values; of a
  date the service reads \<open>getFullYear()\<close> and \<open>getMonth()\<close>. A field that may be absent
  is an \<open>option\<close>.
\<close>

record skill =
  name :: string

record jsdate =
  fullYear :: int
  month :: int

record experience_entry =
  startDate :: "jsdate option"
  endDate :: "jsdate option"

record job_experience =
  min_years :: "int option"

record education_entry =
  degree :: "string option"

record job_education =
  required :: bool
  required_degree :: "string option"

record personal_info =
  location :: "string option"

record job_location =
  remote :: bool
  city :: "string option"

definition truthy :: "string option \<Rightarrow> bool" where
  \<comment> \<open>an absent or empty string is falsy\<close>
  "truthy s = (case s of None \<Rightarrow> False | Some t \<Rightarrow> t \<noteq> [])"

fun countMatches :: "string list \<Rightarrow> string list \<Rightarrow> nat \<times> nat \<Rightarrow> nat \<times> nat" where
  \<comment> \<open>the loop over \<open>jobSkillNames\<close>, with the counters \<open>(exactMatches, partialMatches)\<close>\<close>
  "countMatches resumeSkillNames [] (exactMatches, partialMatches) = (exactMatches, partialMatches)"
| "countMatches resumeSkillNames (jobSkill # rest) (exactMatches, partialMatches) =
     (if jobSkill \<in> set resumeSkillNames
      then countMatches resumeSkillNames rest (exactMatches + 1, partialMatches)
      else if list_ex (\<lambda>resumeSkill. str_includes resumeSkill jobSkill \<or> str_includes jobSkill resumeSkill)
                resumeSkillNames
      then countMatches resumeSkillNames rest (exactMatches, partialMatches + 1)
      else countMatches resumeSkillNames rest (exactMatches, partialMatches))"

definition calculateSkillsMatchFallback :: "skill list \<Rightarrow> skill list \<Rightarrow> jsnum" where
  "calculateSkillsMatchFallback resumeSkills jobSkills =
     (if resumeSkills = [] \<or> jobSkills = [] then num 0
      else let resumeSkillNames = map (\<lambda>s. toLowerCase (name s)) resumeSkills;
               jobSkillNames = map (\<lambda>s. toLowerCase (name s)) jobSkills;
               (exactMatches, partialMatches) = countMatches resumeSkillNames jobSkillNames (0, 0);
               totalMatches = jadd (num (int exactMatches)) (jmul (num (int partialMatches)) (lit (1 / 2)));
               matchPercentage = jmul (jdiv totalMatches (num (int (length jobSkillNames)))) (num 100)
           in jround (jmin (jmax matchPercentage (num 0)) (num 100)))"

definition calculateSkillsMatch ::
  "(string \<times> string \<Rightarrow> jsnum outcome) \<Rightarrow> skill list \<Rightarrow> skill list \<Rightarrow> jsnum" where
  \<comment> \<open>the first argument is the generative backend: it receives the two skill texts of the
      prompt, and a reply is taken as the number \<open>parseInt\<close> reads from it\<close>
  "calculateSkillsMatch generateContent resumeSkills jobSkills =
     (if resumeSkills = [] \<or> jobSkills = [] then num 0
      else case generateContent (join '', '' (map name resumeSkills), join '', '' (map name jobSkills)) of
             Returned score \<Rightarrow> if score = NaN then num 0 else jmin (jmax score (num 0)) (num 100)
           | Failed msg \<Rightarrow>
               if quota_error msg then calculateSkillsMatchFallback resumeSkills jobSkills
               else num 0)"

fun totalMonthsLoop :: "experience_entry list \<Rightarrow> jsnum \<Rightarrow> jsnum" where
  "totalMonthsLoop [] totalMonths = totalMonths"
| "totalMonthsLoop (entry # rest) totalMonths =
     (case (startDate entry, endDate entry) of
        (Some startD, Some endD) \<Rightarrow>
          totalMonthsLoop rest
            (jadd totalMonths
               (num ((fullYear endD - fullYear startD) * 12 + (month endD - month startD))))
      | _ \<Rightarrow> totalMonthsLoop rest totalMonths)"

definition calculateTotalExperience :: "experience_entry list \<Rightarrow> jsnum" where
  "calculateTotalExperience experience = jround (jdiv (totalMonthsLoop experience (num 0)) (num 12))"

definition calculateExperienceMatch ::
  "experience_entry list option \<Rightarrow> job_experience option \<Rightarrow> jsnum" where
  "calculateExperienceMatch resumeExperience jobExperience =
     (case jobExperience of
        None \<Rightarrow> num 100
      | Some je \<Rightarrow>
          (case resumeExperience of
             None \<Rightarrow> num 0
           | Some experience \<Rightarrow>
               if experience = [] then num 0
               else let totalExperience = calculateTotalExperience experience;
                        requiredExperience = num (case min_years je of None \<Rightarrow> 0 | Some m \<Rightarrow> m)
                    in if jge totalExperience requiredExperience then num 100
                       else jround (jmul (jdiv totalExperience requiredExperience) (num 100))))"

fun someDegree :: "education_entry list \<Rightarrow> string option \<Rightarrow> error + bool" where
  \<comment> \<open>\<open>resumeEducation.some(edu => edu.degree && edu.degree.toLowerCase().includes(...))\<close>;
      reading \<open>toLowerCase\<close> of an absent required degree raises\<close>
  "someDegree [] wanted = Inr False"
| "someDegree (edu # rest) wanted =
     (if truthy (degree edu) then
        (case wanted of
           None \<Rightarrow> Inl (TypeError ''Cannot read properties of undefined (reading 'toLowerCase')'')
         | Some w \<Rightarrow>
             if str_includes (toLowerCase (the (degree edu))) (toLowerCase w) then Inr True
             else someDegree rest wanted)
      else someDegree rest wanted)"

definition calculateEducationMatch ::
  "education_entry list \<Rightarrow> job_education option \<Rightarrow> error + jsnum" where
  "calculateEducationMatch resumeEducation jobEducation =
     (case jobEducation of
        None \<Rightarrow> Inr (num 100)
      | Some je \<Rightarrow>
          if \<not> required je then Inr (num 100)
          else if resumeEducation = [] then Inr (num 0)
          else (case someDegree resumeEducation (required_degree je) of
                  Inl e \<Rightarrow> Inl e
                | Inr hasRequiredDegree \<Rightarrow> Inr (if hasRequiredDegree then num 100 else num 0)))"

definition calculateLocationMatch :: "personal_info option \<Rightarrow> job_location \<Rightarrow> error + jsnum" where
  "calculateLocationMatch personalInfo jobLocation =
     (if remote jobLocation then Inr (num 100)
      else case personalInfo of
             None \<Rightarrow> Inl (TypeError ''Cannot read properties of undefined (reading 'location')'')
           | Some info \<Rightarrow>
               if \<not> truthy (location info) \<or> \<not> truthy (city jobLocation) then Inr (num 50)
               else let userLocation = toLowerCase (the (location info));
                        jobCity = toLowerCase (the (city jobLocation))
                    in if str_includes userLocation jobCity \<or> str_includes jobCity userLocation
                       then Inr (num 100) else Inr (num 30))"

subsection \<open>calculateJobMatchScore\<close>

record extracted_data =
  skills :: "skill list"
  experience :: "experience_entry list option"
  education :: "education_entry list"
  personalInfo :: "personal_info option"

record resume =
  skillsEmbedding :: "jsnum list option"
  extractedData :: extracted_data

record requirements =
  req_skills :: "skill list"
  req_experience :: "job_experience option"
  req_education :: "job_education option"

record job =
  embedding :: "jsnum list option"
  requirements :: requirements
  job_loc :: job_location

record scores =
  skillsMatch :: jsnum
  experienceMatch :: jsnum
  educationMatch :: jsnum
  locationMatch :: jsnum
  overallScore :: jsnum

definition weightedOverall :: "jsnum \<Rightarrow> jsnum \<Rightarrow> jsnum \<Rightarrow> jsnum \<Rightarrow> jsnum" where
  \<comment> \<open>the expression assigned to \<open>scores.overallScore\<close>\<close>
  "weightedOverall skillsM experienceM educationM locationM =
     jround (jadd (jadd (jadd (jmul skillsM (lit (2 / 5))) (jmul experienceM (lit (3 / 10))))
                        (jmul educationM (lit (1 / 5))))
                  (jmul locationM (lit (1 / 10))))"

definition zeroScores :: scores where
  "zeroScores = \<lparr>skillsMatch = num 0, experienceMatch = num 0, educationMatch = num 0,
                  locationMatch = num 0, overallScore = num 0\<rparr>"

definition scoreBody ::
  "(string \<times> string \<Rightarrow> jsnum outcome) \<Rightarrow> resume \<Rightarrow> job \<Rightarrow> error + scores" where
  \<comment> \<open>the \<open>try\<close> block: the first scorer that raises ends it\<close>
  "scoreBody generateContent r j =
     (case (case (skillsEmbedding r, embedding j) of
              (Some re, Some je) \<Rightarrow>
                (case cosineSimilarity re je of
                   Inl e \<Rightarrow> Inl e
                 | Inr skillsSimilarity \<Rightarrow> Inr (jround (jmul skillsSimilarity (num 100))))
            | _ \<Rightarrow> Inr (calculateSkillsMatch generateContent (skills (extractedData r))
                           (req_skills (requirements j)))) of
        Inl e \<Rightarrow> Inl e
      | Inr skillsM \<Rightarrow>
          let experienceM = calculateExperienceMatch (experience (extractedData r))
                              (req_experience (requirements j))
          in case calculateEducationMatch (education (extractedData r))
                    (req_education (requirements j)) of
               Inl e \<Rightarrow> Inl e
             | Inr educationM \<Rightarrow>
                 (case calculateLocationMatch (personalInfo (extractedData r)) (job_loc j) of
                    Inl e \<Rightarrow> Inl e
                  | Inr locationM \<Rightarrow>
                      Inr \<lparr>skillsMatch = skillsM, experienceMatch = experienceM,
                           educationMatch = educationM, locationMatch = locationM,
                           overallScore = weightedOverall skillsM experienceM educationM locationM\<rparr>))"

definition calculateJobMatchScore ::
  "(string \<times> string \<Rightarrow> jsnum outcome) \<Rightarrow> resume \<Rightarrow> job \<Rightarrow> scores \<times> log_entry list" where
  \<comment> \<open>the \<open>catch\<close> block logs the error and returns the all-zero record\<close>
  "calculateJobMatchScore generateContent r j =
     (case scoreBody generateContent r j of
        Inr s \<Rightarrow> (s, [])
      | Inl e \<Rightarrow> (zeroScores, [Logged_error e]))"


section \<open>The rule-based extractor of the resume parser\<close>

text \<open>
  \<open>ruleBasedExtraction\<close> works on the lines of the text. The bullet characters of its
  regular expressions other than \<open>-\<close> and \<open>*\<close> lie outside the code units modelled here.
  The fields the extractor fills with constants (empty strings, \<open>undefined\<close>, \<open>false\<close>) and
  the website pattern are left out of the result record.
\<close>

fun splitLines :: "string \<Rightarrow> string \<Rightarrow> string list" where
  \<comment> \<open>\<open>text.split(/\r?\n/)\<close>\<close>
  "splitLines cur [] = [rev cur]"
| "splitLines cur [c] = (if c = CHR 0x0A then [rev cur, []] else [rev (c # cur)])"
| "splitLines cur (c # d # cs) =
     (if c = CHR 0x0A then rev cur # splitLines [] (d # cs)
      else if c = CHR 0x0D \<and> d = CHR 0x0A then rev cur # splitLines [] cs
      else splitLines (c # cur) (d # cs))"

definition is_word_char :: "char \<Rightarrow> bool" where
  "is_word_char c =
     (let n = (of_char c :: nat)
      in (48 \<le> n \<and> n \<le> 57) \<or> (65 \<le> n \<and> n \<le> 90) \<or> (97 \<le> n \<and> n \<le> 122) \<or> n = 95)"

definition sectionHeaders :: "string list" where
  \<comment> \<open>the alternatives of \<open>sectionRegex\<close> in the order the matcher tries them\<close>
  "sectionHeaders =
     [''skills'', ''skill'', ''technical skills'', ''technical skill'', ''projects'', ''project'',
      ''experience'', ''work experience'', ''education'', ''certifications'', ''certification'',
      ''languages'', ''language'']"

definition matchSection :: "string \<Rightarrow> string option" where
  \<comment> \<open>\<open>line.match(sectionRegex)\<close>, giving \<open>m[1].toLowerCase()\<close>: a header at the start of the
      line, ignoring case, that ends at a word boundary\<close>
  "matchSection line =
     find (\<lambda>h. startsWith (toLowerCase line) h \<and>
                (length line = length h \<or> \<not> is_word_char (line ! length h)))
          sectionHeaders"

fun sectionLoop ::
  "string list \<Rightarrow> string \<Rightarrow> (string \<Rightarrow> string list option) \<Rightarrow> string \<Rightarrow> string list option" where
  "sectionLoop [] current sections = sections"
| "sectionLoop (line # rest) current sections =
     (case matchSection line of
        Some h \<Rightarrow>
          sectionLoop rest h (sections(h \<mapsto> (case sections h of Some ls \<Rightarrow> ls | None \<Rightarrow> [])))
      | None \<Rightarrow>
          sectionLoop rest current
            (sections(current \<mapsto> (case sections current of Some ls \<Rightarrow> ls | None \<Rightarrow> []) @ [line])))"

definition splitList :: "string \<Rightarrow> string list" where
  "splitList s =
     filter (\<lambda>x. 0 < length x \<and> length x < 80)
       (map trim
          (splitOn (\<lambda>c. c = CHR '','' \<or> c = CHR ''|'') []
             (map (\<lambda>c. if c = CHR ''-'' \<or> c = CHR ''*'' then CHR '' '' else c) s)))"

definition stripBullet :: "string \<Rightarrow> string" where
  \<comment> \<open>\<open>l.replace(/^[-\<bullet>\*]\s*/, '')\<close>\<close>
  "stripBullet l =
     (case l of [] \<Rightarrow> []
      | c # cs \<Rightarrow> if c = CHR ''-'' \<or> c = CHR ''*'' then dropWhile is_space cs else l)"

fun beforeFirst :: "string \<Rightarrow> string \<Rightarrow> string" where
  \<comment> \<open>\<open>s.split(sep)[0]\<close> for a non-empty separator\<close>
  "beforeFirst sep [] = []"
| "beforeFirst sep (c # cs) = (if startsWith (c # cs) sep then [] else c # beforeFirst sep cs)"

definition orElse :: "'a option \<Rightarrow> 'a option \<Rightarrow> 'a option" where
  \<comment> \<open>\<open>a || b\<close> on values that are an array or \<open>undefined\<close>\<close>
  "orElse a b = (case a of Some x \<Rightarrow> Some x | None \<Rightarrow> b)"

record rb_project =
  project_name :: string
  description :: string
  technologies :: "string list"

record rb_experience =
  position :: string
  exp_description :: string

record rb_education =
  institution :: string

record rule_based =
  nameLine :: string
  rb_experiences :: "rb_experience list"
  rb_educations :: "rb_education list"
  rb_skills :: "skill list"
  rb_certifications :: "string list"
  rb_projects :: "rb_project list"
  rb_languages :: "string list"

definition sectionLines :: "string list option \<Rightarrow> string list" where
  "sectionLines ls = (case ls of Some xs \<Rightarrow> xs | None \<Rightarrow> [])"

definition ruleBasedExtraction :: "string \<Rightarrow> rule_based" where
  "ruleBasedExtraction text =
     (let lines = filter (\<lambda>l. l \<noteq> []) (map trim (splitLines [] text));
          sections = sectionLoop lines ''other'' (\<lambda>k. None);
          skillsBlock = join '' '' (sectionLines (orElse (sections ''skills'') (sections ''technical skills'')));
          skillNames = dedup (splitList skillsBlock);
          projectsLines = sectionLines (sections ''projects'');
          expLines = map stripBullet
                       (sectionLines (orElse (sections ''experience'') (sections ''work experience'')));
          eduLines = map stripBullet (sectionLines (sections ''education''));
          certLines = map stripBullet
                        (sectionLines (orElse (sections ''certifications'') (sections ''certification'')));
          langLines = join '' '' (sectionLines (sections ''languages''))
      in \<lparr>nameLine = (case lines of [] \<Rightarrow> [] | l # ls \<Rightarrow> l),
          rb_experiences =
            take 20 (map (\<lambda>l. \<lparr>position = take 80 (beforeFirst '' at '' l), exp_description = l\<rparr>)
                       (filter (\<lambda>l. 0 < length l) expLines)),
          rb_educations = take 10 (map (\<lambda>l. \<lparr>institution = l\<rparr>) eduLines),
          rb_skills = take 100 (map (\<lambda>n. \<lparr>name = n\<rparr>) skillNames),
          rb_certifications = take 20 certLines,
          rb_projects =
            take 20 (map (\<lambda>l. \<lparr>project_name = take 80 (trim (beforeFirst '':'' l)),
                                description = l, technologies = splitList l\<rparr>)
                       (filter (\<lambda>l. 0 < length l) (map stripBullet projectsLines))),
          rb_languages = take 20 (splitList langLines)\<rparr>)"


section \<open>Reference notions of the specification\<close>

text \<open>
  The weighted sum of the four dimension scores in exact arithmetic, before rounding.
\<close>

definition exact_weighted :: "int \<Rightarrow> int \<Rightarrow> int \<Rightarrow> int \<Rightarrow> rat" where
  "exact_weighted s e d l =
     of_int s * (2 / 5) + of_int e * (3 / 10) + of_int d * (1 / 5) + of_int l * (1 / 10)"


text \<open>
  The boundaries the sanitizer looks for: the first opening and the last closing brace when
  the closing one does not come first, and the same for square brackets, the closing one
  strictly after the opening one.
\<close>

definition objectBounds :: "string \<Rightarrow> (nat \<times> nat) option" where
  "objectBounds cleaned =
     (case (indexOf cleaned CHR ''{'', lastIndexOf cleaned CHR ''}'') of
        (Some i, Some j) \<Rightarrow> if j < i then None else Some (i, j)
      | _ \<Rightarrow> None)"

definition arrayBounds :: "string \<Rightarrow> (nat \<times> nat) option" where
  "arrayBounds cleaned =
     (case (indexOf cleaned CHR ''['', lastIndexOf cleaned CHR '']'') of
        (Some i, Some j) \<Rightarrow> if i < j then Some (i, j) else None
      | _ \<Rightarrow> None)"





text \<open>
  The months of experience the specification sums: one number for every entry that has both
  a start and an end date.
\<close>

fun monthsList :: "experience_entry list \<Rightarrow> int list" where
  "monthsList [] = []"
| "monthsList (entry # rest) =
     (case (startDate entry, endDate entry) of
        (Some startD, Some endD) \<Rightarrow>
          ((fullYear endD - fullYear startD) * 12 + (month endD - month startD)) # monthsList rest
      | _ \<Rightarrow> monthsList rest)"








definition keyOrder :: "string list \<Rightarrow> string list" where
  \<comment> \<open>the order in which \<open>Object.keys\<close> lists keys created in the given order\<close>
  "keyOrder ks = sort_key decimal (filter is_array_index ks) @ filter (\<lambda>k. \<not> is_array_index k) ks"




section \<open>Properties of the rounding\<close>

lemma rnd64_unfold: "rnd64 q = of_int (rhe (q / 2 powi (ulp_exp q))) * 2 powi (ulp_exp q)"
  by (simp add: rnd64_def Let_def rhe_def)

lemma bitlen_powi_bounds:
  assumes "0 < a"
  shows "(2::rat) powi (bitlen a - 1) \<le> of_int a" "of_int a < (2::rat) powi (bitlen a)"
proof -
  from bitlen_bounds[OF assms] have b: "2 ^ nat (bitlen a - 1) \<le> a" "a < 2 ^ nat (bitlen a)"
    by auto
  have ge1: "1 \<le> bitlen a" using assms by (auto simp: bitlen_alt_def)
  have "(of_int (2 ^ nat (bitlen a - 1)) :: rat) \<le> of_int a" using b(1) by (simp only: of_int_le_iff)
  then show "(2::rat) powi (bitlen a - 1) \<le> of_int a"
    using ge1 by (simp add: power_int_def)
  have "(of_int a :: rat) < of_int (2 ^ nat (bitlen a))" using b(2) by (simp only: of_int_less_iff)
  then show "of_int a < (2::rat) powi (bitlen a)"
    using ge1 by (simp add: power_int_def)
qed

lemma ilog2_bounds:
  assumes "0 < q"
  shows "2 powi (ilog2 q) \<le> q" "q < 2 powi (ilog2 q + 1)"
proof -
  obtain a b where ab: "quotient_of q = (a, b)" by (cases "quotient_of q")
  then have bpos: "0 < b" and q: "q = of_int a / of_int b"
    by (auto simp: quotient_of_denom_pos quotient_of_div)
  have apos: "0 < a" using assms bpos q by (simp add: zero_less_divide_iff)
  define d where "d = bitlen a - bitlen b"
  note A = bitlen_powi_bounds[OF apos] and B = bitlen_powi_bounds[OF bpos]
  have bq: "0 < (of_int b::rat)" using bpos by simp
  have lo: "2 powi (d - 1) \<le> q"
  proof -
    have "(2::rat) powi (d - 1) * of_int b \<le> 2 powi (d - 1) * 2 powi (bitlen b)"
      using B(2) by (intro mult_left_mono) auto
    also have "\<dots> = 2 powi (bitlen a - 1)" by (simp add: d_def power_int_add[symmetric])
    also have "\<dots> \<le> of_int a" by (rule A(1))
    finally show ?thesis using bq by (simp add: q pos_le_divide_eq)
  qed
  have hi: "q < 2 powi (d + 1)"
  proof -
    have "(of_int a::rat) < 2 powi (bitlen a)" by (rule A(2))
    also have "\<dots> = 2 powi (d + 1) * 2 powi (bitlen b - 1)"
      by (simp add: d_def power_int_add[symmetric])
    also have "\<dots> \<le> 2 powi (d + 1) * of_int b"
      using B(1) by (intro mult_left_mono) auto
    finally show ?thesis using bq by (simp add: q pos_divide_less_eq)
  qed
  have il: "ilog2 q = (if 2 powi d \<le> q then d else d - 1)"
    by (simp add: ilog2_def ab d_def Let_def)
  show "2 powi (ilog2 q) \<le> q" using lo by (simp add: il)
  show "q < 2 powi (ilog2 q + 1)" using hi by (auto simp: il not_le)
qed

lemma ilog2_less_iff:
  assumes "0 < q"
  shows "ilog2 q < k \<longleftrightarrow> q < 2 powi k"
proof
  assume "ilog2 q < k"
  then have "ilog2 q + 1 \<le> k" by simp
  then have "(2::rat) powi (ilog2 q + 1) \<le> 2 powi k" by (intro power_int_increasing) auto
  with ilog2_bounds(2)[OF assms] show "q < 2 powi k" by simp
next
  assume "q < 2 powi k"
  with ilog2_bounds(1)[OF assms] have "(2::rat) powi (ilog2 q) < 2 powi k" by simp
  show "ilog2 q < k"
  proof (rule ccontr)
    assume "\<not> ilog2 q < k"
    then have "k \<le> ilog2 q" by simp
    then have "(2::rat) powi k \<le> 2 powi (ilog2 q)" by (intro power_int_increasing) auto
    with \<open>(2::rat) powi (ilog2 q) < 2 powi k\<close> show False by simp
  qed
qed

lemma ilog2_mono:
  assumes "0 < q" "q \<le> r"
  shows "ilog2 q \<le> ilog2 r"
proof -
  have r: "0 < r" using assms by simp
  have "r < 2 powi (ilog2 r + 1)" by (rule ilog2_bounds(2)[OF r])
  then have "q < 2 powi (ilog2 r + 1)" using assms by simp
  then have "ilog2 q < ilog2 r + 1" using ilog2_less_iff[OF assms(1), of "ilog2 r + 1"] by simp
  then show ?thesis by simp
qed

lemma rhe_error: "\<bar>of_int (rhe x) - x\<bar> \<le> 1 / 2"
proof -
  have "of_int \<lfloor>x\<rfloor> \<le> x" "x < of_int \<lfloor>x\<rfloor> + 1" by linarith+
  then show ?thesis
    by (auto simp: rhe_def Let_def abs_le_iff)
qed

lemma rhe_of_int [simp]: "rhe (of_int n) = n"
  by (simp add: rhe_def)

lemma rhe_mono:
  assumes "x \<le> y"
  shows "rhe x \<le> rhe y"
proof (cases "\<lfloor>x\<rfloor> = \<lfloor>y\<rfloor>")
  case True
  then show ?thesis using assms by (auto simp: rhe_def Let_def)
next
  case False
  then have lt: "\<lfloor>x\<rfloor> + 1 \<le> \<lfloor>y\<rfloor>" using floor_mono[OF assms] by simp
  have "rhe x \<le> \<lfloor>x\<rfloor> + 1" by (auto simp: rhe_def Let_def)
  moreover have "\<lfloor>y\<rfloor> \<le> rhe y" by (auto simp: rhe_def Let_def)
  ultimately show ?thesis using lt by linarith
qed

lemma rnd64_error: "\<bar>rnd64 q - q\<bar> \<le> 2 powi (ulp_exp q) / 2"
proof -
  define p where "p = ulp_exp q"
  have pp: "(0::rat) < 2 powi p" by simp
  have "rnd64 q - q = (of_int (rhe (q / 2 powi p)) - q / 2 powi p) * 2 powi p"
    using pp by (simp add: rnd64_unfold p_def[symmetric] left_diff_distrib)
  then have "\<bar>rnd64 q - q\<bar> = \<bar>of_int (rhe (q / 2 powi p)) - q / 2 powi p\<bar> * 2 powi p"
    using pp by (simp add: abs_mult)
  also have "\<dots> \<le> (1 / 2) * 2 powi p"
    by (intro mult_right_mono rhe_error) simp
  finally show ?thesis by (simp add: p_def)
qed

lemma rnd64_exact:
  assumes "q / 2 powi (ulp_exp q) = of_int n"
  shows "rnd64 q = q"
proof -
  have "(2::rat) powi (ulp_exp q) \<noteq> 0" by simp
  then have "q = of_int n * 2 powi (ulp_exp q)" using assms by (simp add: field_simps)
  then show ?thesis using assms by (simp add: rnd64_unfold)
qed

lemma ulp_exp_mono:
  assumes "0 < q" "q \<le> r"
  shows "ulp_exp q \<le> ulp_exp r"
  using ilog2_mono[of "\<bar>q\<bar>" "\<bar>r\<bar>"] assms by (simp add: ulp_exp_def)

lemma rnd64_zero [simp]: "rnd64 0 = 0"
  by (simp add: rnd64_def)

lemma rnd64_nonneg:
  assumes "0 \<le> q"
  shows "0 \<le> rnd64 q"
proof -
  have "0 \<le> q / 2 powi (ulp_exp q)" using assms by simp
  then have "rhe 0 \<le> rhe (q / 2 powi (ulp_exp q))" by (rule rhe_mono)
  then have "0 \<le> rhe (q / 2 powi (ulp_exp q))" by (simp add: rhe_def)
  then show ?thesis by (simp add: rnd64_unfold)
qed

lemma rnd64_mono_pos:
  assumes "0 < q" "q \<le> r"
  shows "rnd64 q \<le> rnd64 r"
proof -
  have rpos: "0 < r" using assms by simp
  define p where "p = ulp_exp q"
  define p' where "p' = ulp_exp r"
  have pp': "p \<le> p'" unfolding p_def p'_def by (rule ulp_exp_mono[OF assms])
  show ?thesis
  proof (cases "p = p'")
    case True
    have "q / 2 powi p \<le> r / 2 powi p" using assms by (simp add: divide_right_mono)
    then have "rhe (q / 2 powi p) \<le> rhe (r / 2 powi p)" by (rule rhe_mono)
    then have "(of_int (rhe (q / 2 powi p)) :: rat) * 2 powi p \<le> of_int (rhe (r / 2 powi p)) * 2 powi p"
      by (intro mult_right_mono) auto
    then show ?thesis using True by (simp add: rnd64_unfold p_def[symmetric] p'_def[symmetric])
  next
    case False
    then have lt: "p < p'" using pp' by simp
    define e where "e = ilog2 q"
    define e' where "e' = ilog2 r"
    have p_ge: "e - 52 \<le> p" using assms by (simp add: p_def ulp_exp_def e_def)
    have p'_eq: "p' = e' - 52" using lt assms rpos by (simp add: p_def p'_def ulp_exp_def e'_def max_def split: if_splits)
    have ee': "e + 1 \<le> e'" using p_ge lt p'_eq by simp
    have k0: "0 \<le> e' - p" using lt p'_eq by simp
    have "q < 2 powi (e + 1)" unfolding e_def by (rule ilog2_bounds(2)[OF assms(1)])
    also have "\<dots> \<le> 2 powi e'" using ee' by (intro power_int_increasing) auto
    finally have "q / 2 powi p \<le> 2 powi e' / 2 powi p" by (simp add: divide_right_mono)
    also have "\<dots> = 2 powi (e' - p)" by (simp add: power_int_diff)
    also have "\<dots> = of_int (2 ^ nat (e' - p))" using k0 by (simp add: power_int_def)
    finally have "rhe (q / 2 powi p) \<le> rhe (of_int (2 ^ nat (e' - p)))" by (rule rhe_mono)
    then have "rhe (q / 2 powi p) \<le> 2 ^ nat (e' - p)" by (simp only: rhe_of_int)
    then have "(of_int (rhe (q / 2 powi p)) :: rat) \<le> of_int (2 ^ nat (e' - p))" by (simp only: of_int_le_iff)
    then have "(of_int (rhe (q / 2 powi p)) :: rat) \<le> 2 powi (e' - p)" using k0 by (simp add: power_int_def)
    then have "(of_int (rhe (q / 2 powi p)) :: rat) * 2 powi p \<le> 2 powi (e' - p) * 2 powi p"
      by (intro mult_right_mono) auto
    also have "\<dots> = 2 powi e'" by (simp add: power_int_add[symmetric])
    finally have low: "rnd64 q \<le> 2 powi e'" by (simp add: rnd64_unfold p_def[symmetric])
    define K :: int where "K = 2 ^ 52"
    have K: "(of_int K :: rat) = 2 powi 52" by (simp add: K_def)
    have "(2::rat) powi e' \<le> r" unfolding e'_def by (rule ilog2_bounds(1)[OF rpos])
    then have "2 powi e' / 2 powi p' \<le> r / 2 powi p'" by (simp add: divide_right_mono)
    moreover have "(2::rat) powi e' / 2 powi p' = of_int K"
      unfolding K by (simp add: p'_eq power_int_diff[symmetric])
    ultimately have "rhe (of_int K) \<le> rhe (r / 2 powi p')" using rhe_mono by metis
    then have "K \<le> rhe (r / 2 powi p')" by (simp only: rhe_of_int)
    then have "(of_int K :: rat) \<le> of_int (rhe (r / 2 powi p'))" by (simp only: of_int_le_iff)
    then have "(of_int K :: rat) * 2 powi p' \<le> of_int (rhe (r / 2 powi p')) * 2 powi p'"
      by (intro mult_right_mono) auto
    moreover have "(of_int K :: rat) * 2 powi p' = 2 powi e'"
      unfolding K by (simp add: p'_eq power_int_diff)
    ultimately have "2 powi e' \<le> rnd64 r" by (simp add: rnd64_unfold p'_def[symmetric])
    with low show ?thesis by simp
  qed
qed

lemma rnd64_mono_nonneg:
  assumes "0 \<le> q" "q \<le> r"
  shows "rnd64 q \<le> rnd64 r"
proof (cases "q = 0")
  case True
  then show ?thesis using assms rnd64_nonneg[of r] by simp
next
  case False
  then show ?thesis using assms by (intro rnd64_mono_pos) auto
qed



lemma ulp_exp_le:
  assumes "\<bar>q\<bar> < 2 powi k" "- 1021 \<le> k"
  shows "ulp_exp q \<le> k - 53"
proof (cases "q = 0")
  case True
  then show ?thesis using assms by (simp add: ulp_exp_def)
next
  case False
  then have "0 < \<bar>q\<bar>" by simp
  then have "ilog2 \<bar>q\<bar> < k" using assms(1) by (simp add: ilog2_less_iff)
  then show ?thesis using assms(2) False by (simp add: ulp_exp_def)
qed

lemma ulp_exp_ge: "- 1074 \<le> ulp_exp q"
  by (simp add: ulp_exp_def)

lemma rnd64_error_le:
  assumes "\<bar>q\<bar> < 2 powi k" "- 1021 \<le> k"
  shows "\<bar>rnd64 q - q\<bar> \<le> 2 powi (k - 54)"
proof -
  have "ulp_exp q \<le> k - 53" by (rule ulp_exp_le[OF assms])
  then have "(2::rat) powi (ulp_exp q) \<le> 2 powi (k - 53)"
    by (intro power_int_increasing) auto
  then have "(2::rat) powi (ulp_exp q) / 2 \<le> 2 powi (k - 53) / 2" by simp
  also have "\<dots> = 2 powi (k - 54)"
    by (simp add: power_int_diff)
  finally show ?thesis using rnd64_error[of q] by linarith
qed

lemma rnd64_dyadic:
  assumes "\<bar>m\<bar> < 2 ^ 53" "- 1074 \<le> k"
  shows "rnd64 (of_int m * 2 powi k) = of_int m * 2 powi k"
proof (cases "m = 0")
  case True
  then show ?thesis by simp
next
  case False
  define q :: rat where "q = of_int m * 2 powi k"
  have qne: "q \<noteq> 0" using False by (simp add: q_def)
  have "(of_int \<bar>m\<bar> :: rat) < of_int (2 ^ 53)" using assms(1) by (simp only: of_int_less_iff)
  then have "\<bar>of_int m :: rat\<bar> < 2 powi 53" by simp
  then have "\<bar>of_int m :: rat\<bar> * 2 powi k < 2 powi 53 * 2 powi k"
    by (intro mult_strict_right_mono) auto
  then have "\<bar>q\<bar> < 2 powi (53 + k)"
    by (simp add: q_def abs_mult power_int_add)
  then have "ilog2 \<bar>q\<bar> < 53 + k" using qne by (simp add: ilog2_less_iff)
  then have pk: "ulp_exp q \<le> k" using assms(2) qne by (simp add: ulp_exp_def)
  define j where "j = k - ulp_exp q"
  have j0: "0 \<le> j" using pk by (simp add: j_def)
  have "q / 2 powi (ulp_exp q) = of_int m * 2 powi j"
    by (simp add: q_def j_def power_int_diff)
  also have "\<dots> = of_int (m * 2 ^ nat j)" using j0 by (simp add: power_int_def)
  finally have "rnd64 q = q" by (rule rnd64_exact)
  then show ?thesis by (simp add: q_def)
qed

lemma rnd64_of_int:
  assumes "\<bar>m\<bar> < 2 ^ 53"
  shows "rnd64 (of_int m) = of_int m"
  using rnd64_dyadic[OF assms, of 0] by simp

lemma to_double_Fin:
  assumes "\<bar>q\<bar> < 2 powi 1023"
  shows "to_double q = Fin (rnd64 q)"
proof -
  have "\<bar>rnd64 q - q\<bar> \<le> 2 powi (1023 - 54)" by (rule rnd64_error_le[OF assms]) simp
  also have "\<dots> \<le> (2::rat) powi 1023" by (intro power_int_increasing) auto
  finally have "\<bar>rnd64 q\<bar> < 2 powi 1023 + 2 powi 1023" using assms by linarith
  also have "\<dots> = (2::rat) powi 1024" by (simp add: power_int_def)
  finally have lt: "\<bar>rnd64 q\<bar> < 2 powi 1024" .
  have "rnd64 q \<noteq> 0 \<Longrightarrow> ilog2 \<bar>rnd64 q\<bar> < 1024"
    using lt by (simp add: ilog2_less_iff)
  then show ?thesis by (auto simp: to_double_def Let_def)
qed

lemma small_lt_huge:
  assumes "\<bar>q\<bar> \<le> 2 ^ 60"
  shows "\<bar>q :: rat\<bar> < 2 powi 1023"
proof -
  have "(2::rat) ^ 60 = 2 powi 60" by simp
  also have "\<dots> < 2 powi 1023" by (intro power_int_strict_increasing) auto
  finally show ?thesis using assms by linarith
qed

lemma num_int:
  assumes "\<bar>i\<bar> < 2 ^ 53"
  shows "num i = Fin (of_int i)"
proof -
  have "\<bar>of_int i :: rat\<bar> \<le> 2 ^ 60"
  proof -
    have "\<bar>i\<bar> \<le> 2 ^ 60" using assms by simp
    then have "(of_int \<bar>i\<bar> :: rat) \<le> of_int (2 ^ 60)" by (simp only: of_int_le_iff)
    then show ?thesis by simp
  qed
  then have "to_double (of_int i) = Fin (rnd64 (of_int i))" by (intro to_double_Fin small_lt_huge)
  then show ?thesis by (simp add: num_def rnd64_of_int[OF assms])
qed

section \<open>The overall score\<close>

lemma lit_2_5: "lit (2 / 5) = Fin (3602879701896397 / 9007199254740992)"
  by code_simp

lemma lit_3_10: "lit (3 / 10) = Fin (5404319552844595 / 18014398509481984)"
  by code_simp

lemma lit_1_5: "lit (1 / 5) = Fin (3602879701896397 / 18014398509481984)"
  by code_simp

lemma lit_1_10: "lit (1 / 10) = Fin (3602879701896397 / 36028797018963968)"
  by code_simp

lemma rnd64_small:
  assumes "\<bar>q\<bar> < 128"
  shows "\<bar>rnd64 q - q\<bar> \<le> 1 / 2 ^ 47" "to_double q = Fin (rnd64 q)"
proof -
  have "\<bar>q\<bar> < 2 powi 7" using assms by simp
  then have "\<bar>rnd64 q - q\<bar> \<le> 2 powi (7 - 54)" by (rule rnd64_error_le) simp
  then show "\<bar>rnd64 q - q\<bar> \<le> 1 / 2 ^ 47" by (simp add: power_int_def divide_simps)
  have "\<bar>q\<bar> \<le> 2 ^ 60" using assms by simp
  then show "to_double q = Fin (rnd64 q)" by (intro to_double_Fin small_lt_huge)
qed

lemma abs_chain:
  fixes a b c :: rat
  assumes "\<bar>a - b\<bar> \<le> e1" "\<bar>b - c\<bar> \<le> e2" "e1 + e2 \<le> e"
  shows "\<bar>a - c\<bar> \<le> e"
  using assms by linarith

lemma weighted_product:
  assumes "0 \<le> s" "s \<le> 100" "0 \<le> c" "c \<le> 1" "\<bar>c - w\<bar> \<le> 1 / 2 ^ 54"
  shows "\<exists>x. jmul (num s) (Fin c) = Fin x \<and> \<bar>x - of_int s * w\<bar> \<le> 1 / 2 ^ 46"
proof -
  have ns: "num s = Fin (of_int s)" using assms by (intro num_int) simp
  have s0: "(0::rat) \<le> of_int s" and s100: "(of_int s :: rat) \<le> 100" using assms by simp_all
  have "of_int s * c \<le> 100 * 1" using s0 s100 assms by (intro mult_mono) auto
  moreover have "0 \<le> of_int s * c" using s0 assms by simp
  ultimately have small: "\<bar>of_int s * c\<bar> < 128" by simp
  note r = rnd64_small[OF small]
  have "\<bar>of_int s * c - of_int s * w\<bar> = of_int s * \<bar>c - w\<bar>"
    using s0 by (simp add: abs_mult right_diff_distrib[symmetric])
  also have "\<dots> \<le> 100 * (1 / 2 ^ 54)" using s0 s100 assms(5) by (intro mult_mono) auto
  finally have "\<bar>of_int s * c - of_int s * w\<bar> \<le> 100 / 2 ^ 54" by simp
  then have "\<bar>rnd64 (of_int s * c) - of_int s * w\<bar> \<le> 1 / 2 ^ 46"
    by (rule abs_chain[OF r(1)]) simp
  then show ?thesis by (simp add: ns r(2))
qed

lemma weighted_sum:
  assumes "\<bar>x - a\<bar> \<le> e" "\<bar>y - b\<bar> \<le> 1 / 2 ^ 46" "0 \<le> a" "a \<le> 90" "0 \<le> b" "b \<le> 30" "e \<le> 1 / 2 ^ 43"
  shows "\<exists>z. jadd (Fin x) (Fin y) = Fin z \<and> \<bar>z - (a + b)\<bar> \<le> e + 1 / 2 ^ 45"
proof -
  have e1: "e \<le> 1" using assms(7) by (rule order_trans) simp
  have y1: "\<bar>y - b\<bar> \<le> 1" using assms(2) by (rule order_trans) simp
  have small: "\<bar>x + y\<bar> < 128" using assms(1,3,4,5,6) e1 y1 by linarith
  note r = rnd64_small[OF small]
  have "\<bar>(x + y) - (a + b)\<bar> \<le> e + 1 / 2 ^ 46" using assms(1,2) by linarith
  then have "\<bar>rnd64 (x + y) - (a + b)\<bar> \<le> e + 1 / 2 ^ 45"
    by (rule abs_chain[OF r(1)]) simp
  then show ?thesis by (simp add: r(2))
qed


lemma weightedOverall_value:
  assumes "s \<in> {0..100}" "e \<in> {0..100}" "d \<in> {0..100}" "l \<in> {0..100}"
  shows "\<exists>y. weightedOverall (num s) (num e) (num d) (num l) = Fin (of_int \<lfloor>y + 1 / 2\<rfloor>)
             \<and> \<bar>y - exact_weighted s e d l\<bar> \<le> 1 / 2 ^ 42"
proof -
  have b: "0 \<le> s" "s \<le> 100" "0 \<le> e" "e \<le> 100" "0 \<le> d" "d \<le> 100" "0 \<le> l" "l \<le> 100"
    using assms by auto
  have rs: "(0::rat) \<le> of_int s" "(of_int s :: rat) \<le> 100" using b by simp_all
  have re: "(0::rat) \<le> of_int e" "(of_int e :: rat) \<le> 100" using b by simp_all
  have rd: "(0::rat) \<le> of_int d" "(of_int d :: rat) \<le> 100" using b by simp_all
  have rl: "(0::rat) \<le> of_int l" "(of_int l :: rat) \<le> 100" using b by simp_all
  obtain x1 where x1: "jmul (num s) (lit (2 / 5)) = Fin x1" "\<bar>x1 - of_int s * (2 / 5)\<bar> \<le> 1 / 2 ^ 46"
    using weighted_product[OF b(1,2), of "3602879701896397 / 9007199254740992" "2 / 5"]
    by (auto simp: lit_2_5)
  obtain x2 where x2: "jmul (num e) (lit (3 / 10)) = Fin x2" "\<bar>x2 - of_int e * (3 / 10)\<bar> \<le> 1 / 2 ^ 46"
    using weighted_product[OF b(3,4), of "5404319552844595 / 18014398509481984" "3 / 10"]
    by (auto simp: lit_3_10)
  obtain x3 where x3: "jmul (num d) (lit (1 / 5)) = Fin x3" "\<bar>x3 - of_int d * (1 / 5)\<bar> \<le> 1 / 2 ^ 46"
    using weighted_product[OF b(5,6), of "3602879701896397 / 18014398509481984" "1 / 5"]
    by (auto simp: lit_1_5)
  obtain x4 where x4: "jmul (num l) (lit (1 / 10)) = Fin x4" "\<bar>x4 - of_int l * (1 / 10)\<bar> \<le> 1 / 2 ^ 46"
    using weighted_product[OF b(7,8), of "3602879701896397 / 36028797018963968" "1 / 10"]
    by (auto simp: lit_1_10)
  have a1: "(0::rat) \<le> of_int s * (2 / 5)" "of_int s * (2 / 5) \<le> (90::rat)" using rs by simp_all
  have a2: "(0::rat) \<le> of_int e * (3 / 10)" "of_int e * (3 / 10) \<le> (30::rat)" using re by simp_all
  have a3: "(0::rat) \<le> of_int d * (1 / 5)" "of_int d * (1 / 5) \<le> (30::rat)" using rd by simp_all
  have a4: "(0::rat) \<le> of_int l * (1 / 10)" "of_int l * (1 / 10) \<le> (30::rat)" using rl by simp_all
  obtain y1 where y1: "jadd (Fin x1) (Fin x2) = Fin y1"
      "\<bar>y1 - (of_int s * (2 / 5) + of_int e * (3 / 10))\<bar> \<le> 1 / 2 ^ 46 + 1 / 2 ^ 45"
    using weighted_sum[OF x1(2) x2(2) a1 a2] by auto
  have s2: "(0::rat) \<le> of_int s * (2 / 5) + of_int e * (3 / 10)"
      "of_int s * (2 / 5) + of_int e * (3 / 10) \<le> (90::rat)" using rs re by simp_all
  obtain y2 where y2: "jadd (Fin y1) (Fin x3) = Fin y2"
      "\<bar>y2 - (of_int s * (2 / 5) + of_int e * (3 / 10) + of_int d * (1 / 5))\<bar>
         \<le> 1 / 2 ^ 46 + 1 / 2 ^ 45 + 1 / 2 ^ 45"
    using weighted_sum[OF y1(2) x3(2) s2 a3] by auto
  have s3: "(0::rat) \<le> of_int s * (2 / 5) + of_int e * (3 / 10) + of_int d * (1 / 5)"
      "of_int s * (2 / 5) + of_int e * (3 / 10) + of_int d * (1 / 5) \<le> (90::rat)"
    using rs re rd by simp_all
  obtain y3 where y3: "jadd (Fin y2) (Fin x4) = Fin y3"
      "\<bar>y3 - (of_int s * (2 / 5) + of_int e * (3 / 10) + of_int d * (1 / 5) + of_int l * (1 / 10))\<bar>
         \<le> 1 / 2 ^ 46 + 1 / 2 ^ 45 + 1 / 2 ^ 45 + 1 / 2 ^ 45"
    using weighted_sum[OF y2(2) x4(2) s3 a4] by auto
  have "\<bar>y3 - exact_weighted s e d l\<bar> \<le> 1 / 2 ^ 42"
    using y3(2) unfolding exact_weighted_def by (rule order_trans) simp
  moreover have "weightedOverall (num s) (num e) (num d) (num l) = Fin (of_int \<lfloor>y3 + 1 / 2\<rfloor>)"
    using y1(1) y2(1) y3(1) by (simp add: weightedOverall_def x1(1) x2(1) x3(1) x4(1))
  ultimately show ?thesis by blast
qed


lemma round_near_tenths:
  fixes y :: rat and k :: int
  assumes "\<bar>y - of_int k / 10\<bar> \<le> 1 / 2 ^ 42"
  defines "w \<equiv> (of_int k / 10 :: rat)"
  shows "\<lfloor>y + 1 / 2\<rfloor> = \<lfloor>w + 1 / 2\<rfloor>
         \<or> (w + 1 / 2 = of_int \<lfloor>w + 1 / 2\<rfloor> \<and> \<lfloor>y + 1 / 2\<rfloor> = \<lfloor>w + 1 / 2\<rfloor> - 1)"
proof -
  define F where "F = \<lfloor>w + 1 / 2\<rfloor>"
  have fl: "of_int F \<le> w + 1 / 2" "w + 1 / 2 < of_int F + 1" unfolding F_def by linarith+
  have w10: "w + 1 / 2 = of_int (k + 5) / 10" by (simp add: w_def)
  have "(of_int (10 * F) :: rat) \<le> of_int (k + 5)" using fl(1) unfolding w10 by simp
  then have lo: "10 * F \<le> k + 5" by (simp only: of_int_le_iff)
  have "(of_int (k + 5) :: rat) < of_int (10 * F + 10)" using fl(2) unfolding w10 by simp
  then have hi: "k + 5 < 10 * F + 10" by (simp only: of_int_less_iff)
  have small: "(1::rat) / 2 ^ 42 \<le> 1 / 100" by simp
  have yw: "\<bar>y - w\<bar> \<le> 1 / 100" using assms(1) small unfolding w_def by linarith
  have "\<lfloor>y + 1 / 2\<rfloor> = F \<or> (w + 1 / 2 = of_int F \<and> \<lfloor>y + 1 / 2\<rfloor> = F - 1)"
  proof (cases "k + 5 = 10 * F")
    case True
    then have "(of_int (k + 5) :: rat) = of_int (10 * F)" by simp
    then have eq: "w + 1 / 2 = of_int F" unfolding w10 by simp
    have "of_int F - 1 \<le> y + 1 / 2" using yw eq by linarith
    then have "of_int (F - 1) \<le> y + 1 / 2" by simp
    then have l1: "F - 1 \<le> \<lfloor>y + 1 / 2\<rfloor>" by (simp only: le_floor_iff)
    have "y + 1 / 2 < of_int F + 1" using yw eq by linarith
    then have "y + 1 / 2 < of_int (F + 1)" by simp
    then have l2: "\<lfloor>y + 1 / 2\<rfloor> < F + 1" by (simp only: floor_less_iff)
    have "\<lfloor>y + 1 / 2\<rfloor> = F - 1 \<or> \<lfloor>y + 1 / 2\<rfloor> = F" using l1 l2 by linarith
    then show ?thesis using eq by blast
  next
    case False
    then have "10 * F + 1 \<le> k + 5" "k + 5 \<le> 10 * F + 9" using lo hi by simp_all
    then have "(of_int (10 * F + 1) :: rat) \<le> of_int (k + 5)" "(of_int (k + 5) :: rat) \<le> of_int (10 * F + 9)"
      by (simp_all only: of_int_le_iff)
    then have "of_int F + 1 / 10 \<le> w + 1 / 2" "w + 1 / 2 \<le> of_int F + 9 / 10"
      unfolding w10 by simp_all
    then have "of_int F \<le> y + 1 / 2" "y + 1 / 2 < of_int F + 1" using yw by linarith+
    then have "\<lfloor>y + 1 / 2\<rfloor> = F" by (simp add: floor_unique)
    then show ?thesis by blast
  qed
  then show ?thesis unfolding F_def .
qed


text \<open>
  Counterexample to C1 as stated: for the scores 0, 3, 2 and 2 the exact weighted sum is 1.5,
  which rounds to 2, while the doubles add up to 1.4999999999999998 and the aggregator
  returns 1.
\<close>

theorem weightedOverall_counterexample:
  "weightedOverall (num 0) (num 3) (num 2) (num 2) = Fin 1
   \<and> \<lfloor>exact_weighted 0 3 2 2 + 1 / 2\<rfloor> = 2"
proof
  have n: "num 0 = Fin 0" "num 3 = Fin 3" "num 2 = Fin 2" by (simp_all add: num_int)
  have m1: "jmul (Fin 0) (Fin (3602879701896397 / 9007199254740992)) = Fin 0" by code_simp
  have m2: "jmul (Fin 3) (Fin (5404319552844595 / 18014398509481984))
              = Fin (2026619832316723 / 2251799813685248)" by code_simp
  have m3: "jmul (Fin 2) (Fin (3602879701896397 / 18014398509481984))
              = Fin (3602879701896397 / 9007199254740992)" by code_simp
  have m4: "jmul (Fin 2) (Fin (3602879701896397 / 36028797018963968))
              = Fin (3602879701896397 / 18014398509481984)" by code_simp
  have a1: "jadd (Fin 0) (Fin (2026619832316723 / 2251799813685248))
              = Fin (2026619832316723 / 2251799813685248)" by code_simp
  have a2: "jadd (Fin (2026619832316723 / 2251799813685248)) (Fin (3602879701896397 / 9007199254740992))
              = Fin (1463669878895411 / 1125899906842624)" by code_simp
  have a3: "jadd (Fin (1463669878895411 / 1125899906842624)) (Fin (3602879701896397 / 18014398509481984))
              = Fin (6755399441055743 / 4503599627370496)" by code_simp
  have "weightedOverall (num 0) (num 3) (num 2) (num 2)
          = jround (Fin (6755399441055743 / 4503599627370496))"
    by (simp only: weightedOverall_def n lit_2_5 lit_3_10 lit_1_5 lit_1_10 m1 m2 m3 m4 a1 a2 a3)
  also have "\<dots> = Fin 1" by code_simp
  finally show "weightedOverall (num 0) (num 3) (num 2) (num 2) = Fin 1" .
  have "exact_weighted 0 3 2 2 + 1 / 2 = of_int 2" by (simp add: exact_weighted_def)
  then show "\<lfloor>exact_weighted 0 3 2 2 + 1 / 2\<rfloor> = 2" by (simp only: floor_of_int)
qed

text \<open>
  C1 (amended): for dimension scores that are integers in [0,100], the overall score is an
  integer in [0,100]. It is the exact weighted sum rounded half up, except that at an exact
  tie (weighted sum plus one half an integer) the double-precision sum may fall just below
  the tie, and the result is then one less.
\<close>

theorem weightedOverall_bounded:
  assumes "s \<in> {0..100}" "e \<in> {0..100}" "d \<in> {0..100}" "l \<in> {0..100}"
  shows "\<exists>n. weightedOverall (num s) (num e) (num d) (num l) = Fin (of_int n)
           \<and> 0 \<le> n \<and> n \<le> 100
           \<and> (n = \<lfloor>exact_weighted s e d l + 1 / 2\<rfloor>
                \<or> (exact_weighted s e d l + 1 / 2 = of_int \<lfloor>exact_weighted s e d l + 1 / 2\<rfloor>
                    \<and> n = \<lfloor>exact_weighted s e d l + 1 / 2\<rfloor> - 1))"
proof -
  define k where "k = 4 * s + 3 * e + 2 * d + l"
  have kb: "0 \<le> k" "k \<le> 1000" using assms by (auto simp: k_def)
  have w: "exact_weighted s e d l = of_int k / 10" by (simp add: exact_weighted_def k_def)
  obtain y where y: "weightedOverall (num s) (num e) (num d) (num l) = Fin (of_int \<lfloor>y + 1 / 2\<rfloor>)"
      "\<bar>y - exact_weighted s e d l\<bar> \<le> 1 / 2 ^ 42"
    using weightedOverall_value[OF assms] by blast
  have yk: "\<bar>y - of_int k / 10\<bar> \<le> 1 / 2 ^ 42" using y(2) by (simp add: w)
  have small: "(1::rat) / 2 ^ 42 \<le> 1 / 100" by simp
  have yb: "- (1 / 100) \<le> y" "y \<le> 100 + 1 / 100"
  proof -
    have "(0::rat) \<le> of_int k / 10" "(of_int k :: rat) / 10 \<le> 100" using kb by simp_all
    then show "- (1 / 100) \<le> y" "y \<le> 100 + 1 / 100" using yk small by linarith+
  qed
  have "(of_int 0 :: rat) \<le> y + 1 / 2" using yb by simp
  then have n0: "0 \<le> \<lfloor>y + 1 / 2\<rfloor>" by (simp only: le_floor_iff)
  have "y + 1 / 2 < of_int 101" using yb by simp
  then have "\<lfloor>y + 1 / 2\<rfloor> < 101" by (simp only: floor_less_iff)
  then have n100: "\<lfloor>y + 1 / 2\<rfloor> \<le> 100" by simp
  show ?thesis
    using y(1) n0 n100 round_near_tenths[OF yk] unfolding w by blast
qed

text \<open>Witness for C1: the scores 50, 100, 100, 100 give 80.\<close>

theorem weightedOverall_bounded_witness:
  "weightedOverall (num 50) (num 100) (num 100) (num 100) = Fin 80"
proof -
  have mem: "(50::int) \<in> {0..100}" "(100::int) \<in> {0..100}" by simp_all
  have v: "exact_weighted 50 100 100 100 = 80" by (simp add: exact_weighted_def)
  have w: "\<lfloor>exact_weighted 50 100 100 100 + 1 / 2\<rfloor> = 80"
    unfolding v by (rule floor_unique) simp_all
  have w2: "exact_weighted 50 100 100 100 + 1 / 2 \<noteq> of_int 80"
    unfolding v by simp
  show ?thesis
    using weightedOverall_bounded[OF mem(1) mem(2) mem(2) mem(2)] unfolding w using w2 by auto
qed

section \<open>Errors of the scorers and of the embedder\<close>

lemma num_0: "num 0 = Fin 0"
  by (simp add: num_int)

lemma num_100: "num 100 = Fin 100"
  by (simp add: num_int)

text \<open>
  Counterexample to C2 as stated: the two embeddings have different lengths, so the skills
  scorer raises; the experience scorer alone returns 100 for this pair, but the aggregator
  returns 0 for experience as for every other field.
\<close>

theorem calculateJobMatchScore_counterexample:
  "calculateExperienceMatch None None = num 100
   \<and> num 100 \<noteq> num 0
   \<and> experienceMatch (fst (calculateJobMatchScore (\<lambda>p. Failed None)
         \<lparr>skillsEmbedding = Some [num 1, num 1],
          extractedData = \<lparr>skills = [], experience = None, education = [], personalInfo = None\<rparr>\<rparr>
         \<lparr>embedding = Some [num 1],
          requirements = \<lparr>req_skills = [], req_experience = None, req_education = None\<rparr>,
          job_loc = \<lparr>remote = True, city = None\<rparr>\<rparr>)) = num 0"
  by (simp add: calculateExperienceMatch_def calculateJobMatchScore_def scoreBody_def
      cosineSimilarity_def zeroScores_def num_0 num_100)

text \<open>
  C2 (amended): if a dimension scorer raises during match scoring, the aggregator catches the
  error, logs it and returns the all-zero record: every dimension score and the overall score
  are 0, whatever the other scorers would have returned. It does not raise to its caller.
\<close>

theorem calculateJobMatchScore_catches:
  assumes "(\<exists>vecA vecB. skillsEmbedding r = Some vecA \<and> embedding j = Some vecB
              \<and> cosineSimilarity vecA vecB = Inl err)
           \<or> calculateEducationMatch (education (extractedData r)) (req_education (requirements j)) = Inl err
           \<or> calculateLocationMatch (personalInfo (extractedData r)) (job_loc j) = Inl err"
  shows "\<exists>err'. calculateJobMatchScore generateContent r j =
           (\<lparr>skillsMatch = num 0, experienceMatch = num 0, educationMatch = num 0,
             locationMatch = num 0, overallScore = num 0\<rparr>, [Logged_error err'])"
  using assms
  by (auto simp: calculateJobMatchScore_def scoreBody_def zeroScores_def Let_def
           split: option.splits sum.splits)

text \<open>Witness for C2: a candidate without personal information and an on-site job.\<close>

theorem calculateJobMatchScore_catches_witness:
  "\<exists>err'. calculateJobMatchScore (\<lambda>p. Failed None)
         \<lparr>skillsEmbedding = None,
          extractedData = \<lparr>skills = [], experience = None, education = [], personalInfo = None\<rparr>\<rparr>
         \<lparr>embedding = None,
          requirements = \<lparr>req_skills = [], req_experience = None, req_education = None\<rparr>,
          job_loc = \<lparr>remote = False, city = Some ''Chennai''\<rparr>\<rparr> =
       (\<lparr>skillsMatch = num 0, experienceMatch = num 0, educationMatch = num 0,
         locationMatch = num 0, overallScore = num 0\<rparr>, [Logged_error err'])"
proof -
  define r where "r = \<lparr>skillsEmbedding = None,
    extractedData = \<lparr>skills = [], experience = None, education = [], personalInfo = None\<rparr>\<rparr>"
  define j where "j = \<lparr>embedding = None,
    requirements = \<lparr>req_skills = [], req_experience = None, req_education = None\<rparr>,
    job_loc = \<lparr>remote = False, city = Some ''Chennai''\<rparr>\<rparr>"
  have "calculateLocationMatch (personalInfo (extractedData r)) (job_loc j)
          = Inl (TypeError ''Cannot read properties of undefined (reading 'location')'')"
    by (simp add: calculateLocationMatch_def r_def j_def)
  then have "(\<exists>vecA vecB. skillsEmbedding r = Some vecA \<and> embedding j = Some vecB
              \<and> cosineSimilarity vecA vecB
                  = Inl (TypeError ''Cannot read properties of undefined (reading 'location')''))
           \<or> calculateEducationMatch (education (extractedData r)) (req_education (requirements j))
                  = Inl (TypeError ''Cannot read properties of undefined (reading 'location')'')
           \<or> calculateLocationMatch (personalInfo (extractedData r)) (job_loc j)
                  = Inl (TypeError ''Cannot read properties of undefined (reading 'location')'')"
    by blast
  from calculateJobMatchScore_catches[OF this, of "\<lambda>p. Failed None"]
  show ?thesis unfolding r_def j_def .
qed

text \<open>
  Counterexample to C3 as stated: comparing a vector of two components with a vector of one
  raises an error instead of returning the score 0.
\<close>

theorem cosineSimilarity_unequal_counterexample:
  "cosineSimilarity [num 1, num 1] [num 1] = Inl (Error ''Vectors must have the same length'')
   \<and> cosineSimilarity [num 1, num 1] [num 1] \<noteq> Inr (num 0)"
  by (simp add: cosineSimilarity_def)

text \<open>
  C3 (amended): for two vectors of unequal length \<open>cosineSimilarity\<close> raises the error
  "Vectors must have the same length". When the vectors are the skills embedding of the
  resume and the embedding of the job, the aggregator catches that error and returns the
  all-zero record, so the skills score is 0 there and nothing reaches the aggregator's caller.
\<close>

theorem cosineSimilarity_unequal_raises:
  assumes "length vecA \<noteq> length vecB"
  shows "cosineSimilarity vecA vecB = Inl (Error ''Vectors must have the same length'')
         \<and> (skillsEmbedding r = Some vecA \<and> embedding j = Some vecB \<longrightarrow>
              calculateJobMatchScore generateContent r j
                = (zeroScores, [Logged_error (Error ''Vectors must have the same length'')]))"
  using assms by (simp add: cosineSimilarity_def calculateJobMatchScore_def scoreBody_def)

text \<open>Witness for C3: a fallback embedding of the resume against a shorter job embedding.\<close>

theorem cosineSimilarity_unequal_raises_witness:
  "cosineSimilarity [num 1, num 2, num 3] [num 1, num 2]
     = Inl (Error ''Vectors must have the same length'')
   \<and> calculateJobMatchScore (\<lambda>p. Failed None)
         \<lparr>skillsEmbedding = Some [num 1, num 2, num 3],
          extractedData = \<lparr>skills = [], experience = None, education = [], personalInfo = None\<rparr>\<rparr>
         \<lparr>embedding = Some [num 1, num 2],
          requirements = \<lparr>req_skills = [], req_experience = None, req_education = None\<rparr>,
          job_loc = \<lparr>remote = True, city = None\<rparr>\<rparr>
       = (zeroScores, [Logged_error (Error ''Vectors must have the same length'')])"
  using cosineSimilarity_unequal_raises[of "[num 1, num 2, num 3]" "[num 1, num 2]"
          "\<lparr>skillsEmbedding = Some [num 1, num 2, num 3],
            extractedData = \<lparr>skills = [], experience = None, education = [], personalInfo = None\<rparr>\<rparr>"
          "\<lparr>embedding = Some [num 1, num 2],
            requirements = \<lparr>req_skills = [], req_experience = None, req_education = None\<rparr>,
            job_loc = \<lparr>remote = True, city = None\<rparr>\<rparr>" "\<lambda>p. Failed None"]
  by simp

text \<open>
  Counterexample to C4 as stated: a backend failure that is not a quota or rate-limit error
  is not replaced by the fallback embedding; \<open>generateEmbedding\<close> raises.
\<close>

theorem generateEmbedding_counterexample:
  "generateEmbedding (\<lambda>t. Failed (Some ''network unreachable'')) ''python developer''
     = Inl (Error ''Failed to generate embedding'')"
  by (simp add: generateEmbedding_def quota_error_def)

text \<open>
  C4 (amended): when the primary embedding call fails with an error whose message contains
  "quota" or "429", \<open>generateEmbedding\<close> returns the deterministic fallback embedding; for
  any other failure (also an error without a message) it raises the error "Failed to generate
  embedding" to its caller.
\<close>

theorem generateEmbedding_failure:
  assumes "embedContent (take 8000 text) = Failed msg"
  shows "generateEmbedding embedContent text =
           (if quota_error msg then Inr (generateFallbackEmbedding text)
            else Inl (Error ''Failed to generate embedding''))"
  using assms by (simp add: generateEmbedding_def)

text \<open>Witness for C4: a rate-limit failure is answered by the fallback embedding.\<close>

theorem generateEmbedding_failure_witness:
  "generateEmbedding (\<lambda>t. Failed (Some ''429 Too Many Requests'')) ''python developer''
     = Inr (generateFallbackEmbedding ''python developer'')"
proof -
  have q: "quota_error (Some ''429 Too Many Requests'')" by (simp add: quota_error_def)
  have f: "(\<lambda>t. Failed (Some ''429 Too Many Requests'') :: jsnum list outcome) (take 8000 ''python developer'')
             = Failed (Some ''429 Too Many Requests'')" by simp
  show ?thesis using generateEmbedding_failure[OF f] q by simp
qed

section \<open>The rule-based extractor\<close>

lemma ruleBasedExtraction_one_line:
  "ruleBasedExtraction ''Skills: Python, React, SQL'' =
     \<lparr>nameLine = ''Skills: Python, React, SQL'', rb_experiences = [], rb_educations = [],
      rb_skills = [], rb_certifications = [], rb_projects = [], rb_languages = []\<rparr>"
  by code_simp

lemma ruleBasedExtraction_two_lines:
  "ruleBasedExtraction ''Skills:\<newline>Python, React, SQL'' =
     \<lparr>nameLine = ''Skills:'', rb_experiences = [], rb_educations = [],
      rb_skills = [\<lparr>name = ''Python''\<rparr>, \<lparr>name = ''React''\<rparr>, \<lparr>name = ''SQL''\<rparr>],
      rb_certifications = [], rb_projects = [], rb_languages = []\<rparr>"
  by code_simp

lemma matchSection_skills_line: "matchSection ''Skills: Python, React, SQL'' = Some ''skills''"
  by code_simp

text \<open>
  Counterexample to C6 as stated: the line "Skills: Python, React, SQL" matches the section
  pattern, so it only opens the skills section and its content is not kept.
\<close>

theorem ruleBasedExtraction_counterexample:
  "rb_skills (ruleBasedExtraction ''Skills: Python, React, SQL'') = []
   \<and> rb_skills (ruleBasedExtraction ''Skills: Python, React, SQL'')
       \<noteq> [\<lparr>name = ''Python''\<rparr>, \<lparr>name = ''React''\<rparr>, \<lparr>name = ''SQL''\<rparr>]"
  by (simp add: ruleBasedExtraction_one_line)

text \<open>
  C6 (amended): for a resume text made of the header line "Skills:" followed by the line
  "Python, React, SQL", the rule-based extractor returns exactly the skills list
  [Python, React, SQL] and empty experience, education and projects lists. A line that starts
  with a section header only opens the section: for the single line
  "Skills: Python, React, SQL" all four lists are empty.
\<close>

theorem ruleBasedExtraction_skills:
  "rb_skills (ruleBasedExtraction ''Skills:\<newline>Python, React, SQL'')
     = [\<lparr>name = ''Python''\<rparr>, \<lparr>name = ''React''\<rparr>, \<lparr>name = ''SQL''\<rparr>]
   \<and> rb_experiences (ruleBasedExtraction ''Skills:\<newline>Python, React, SQL'') = []
   \<and> rb_educations (ruleBasedExtraction ''Skills:\<newline>Python, React, SQL'') = []
   \<and> rb_projects (ruleBasedExtraction ''Skills:\<newline>Python, React, SQL'') = []
   \<and> rb_skills (ruleBasedExtraction ''Skills: Python, React, SQL'') = []
   \<and> rb_experiences (ruleBasedExtraction ''Skills: Python, React, SQL'') = []
   \<and> rb_educations (ruleBasedExtraction ''Skills: Python, React, SQL'') = []
   \<and> rb_projects (ruleBasedExtraction ''Skills: Python, React, SQL'') = []"
  by (simp add: ruleBasedExtraction_one_line ruleBasedExtraction_two_lines)


section \<open>The response sanitizer\<close>

lemma indexOf_first:
  assumes "indexOf s c = Some i"
  shows "i < length s \<and> s ! i = c \<and> (\<forall>k<i. s ! k \<noteq> c)"
  using assms
proof (induction s arbitrary: i)
  case Nil
  then show ?case by simp
next
  case (Cons x xs)
  show ?case
  proof (cases "x = c")
    case True
    then show ?thesis using Cons.prems by simp
  next
    case False
    then obtain i' where i': "indexOf xs c = Some i'" "i = Suc i'"
      using Cons.prems by (auto split: option.splits)
    from Cons.IH[OF i'(1)] False show ?thesis
      by (auto simp: i'(2) nth_Cons split: nat.splits)
  qed
qed

lemma indexOf_None: "indexOf s c = None \<longleftrightarrow> c \<notin> set s"
  by (induction s) auto

lemma lastIndexOf_None: "lastIndexOf s c = None \<longleftrightarrow> c \<notin> set s"
  by (induction s) (auto split: option.splits)

lemma lastIndexOf_last:
  assumes "lastIndexOf s c = Some j"
  shows "j < length s \<and> s ! j = c \<and> (\<forall>k. j < k \<and> k < length s \<longrightarrow> s ! k \<noteq> c)"
  using assms
proof (induction s arbitrary: j)
  case Nil
  then show ?case by simp
next
  case (Cons x xs)
  show ?case
  proof (cases "lastIndexOf xs c")
    case None
    then have "c \<notin> set xs" by (simp add: lastIndexOf_None)
    moreover have "x = c" "j = 0" using Cons.prems None by (auto split: if_splits)
    ultimately show ?thesis by (auto simp: nth_Cons split: nat.splits)
  next
    case (Some j')
    then have j: "j = Suc j'" using Cons.prems by simp
    from Cons.IH[OF Some] show ?thesis
      by (auto simp: j nth_Cons split: nat.splits)
  qed
qed

text \<open>
  Counterexample to C8 as stated: for an input without JSON the error raised is the fixed
  error "No valid JSON found in AI response"; the truncated copy of the raw response is
  written to the log and is not part of the error.
\<close>

theorem parseAIJsonResponse_counterexample:
  "parseAIJsonResponse (\<lambda>s. Inr s) ''no json here''
     = (Inl (Error ''No valid JSON found in AI response''),
        [Logged_error (Error ''No valid JSON found in AI response''), Logged_text ''no json here''])
   \<and> Error ''No valid JSON found in AI response'' \<noteq> Error (take 500 ''no json here'')"
proof
  show "parseAIJsonResponse (\<lambda>s. Inr s) ''no json here''
     = (Inl (Error ''No valid JSON found in AI response'') :: error + string,
        [Logged_error (Error ''No valid JSON found in AI response''), Logged_text ''no json here''])"
    by code_simp
  show "Error ''No valid JSON found in AI response'' \<noteq> Error (take 500 ''no json here'')"
    by code_simp
qed

lemma parseAIJsonResponse_result:
  "fst (parseAIJsonResponse parse text) =
     (let cleaned = trim (stripFences text)
      in case objectBounds cleaned of
           Some (i, j) \<Rightarrow> parse (substring cleaned i (j + 1))
         | None \<Rightarrow>
             (case arrayBounds cleaned of
                Some (i, j) \<Rightarrow> parse (substring cleaned i (j + 1))
              | None \<Rightarrow> Inl (Error ''No valid JSON found in AI response'')))"
proof -
  define cleaned where "cleaned = trim (stripFences text)"
  define fromArray where "fromArray =
    (case (indexOf cleaned CHR ''['', lastIndexOf cleaned CHR '']'') of
       (Some arrayStart, Some arrayEnd) \<Rightarrow>
         if arrayStart < arrayEnd then parse (substring cleaned arrayStart (arrayEnd + 1))
         else Inl no_json
     | _ \<Rightarrow> Inl no_json)"
  define res where "res =
    (case (indexOf cleaned CHR ''{'', lastIndexOf cleaned CHR ''}'') of
       (Some jsonStart, Some jsonEnd) \<Rightarrow>
         if jsonEnd < jsonStart then fromArray
         else parse (substring cleaned jsonStart (jsonEnd + 1))
     | _ \<Rightarrow> fromArray)"
  have f: "fst (parseAIJsonResponse parse text) = res"
    unfolding parseAIJsonResponse_def Let_def res_def fromArray_def cleaned_def
    by (simp split: sum.split)
  have a: "fromArray = (case arrayBounds cleaned of
                Some (i, j) \<Rightarrow> parse (substring cleaned i (j + 1))
              | None \<Rightarrow> Inl (Error ''No valid JSON found in AI response''))"
    unfolding fromArray_def arrayBounds_def no_json_def
    by (simp split: option.split)
  have "res = (case objectBounds cleaned of
           Some (i, j) \<Rightarrow> parse (substring cleaned i (j + 1))
         | None \<Rightarrow> fromArray)"
    unfolding res_def objectBounds_def
    by (simp split: option.split)
  then show ?thesis
    unfolding f a Let_def cleaned_def .
qed

lemma parseAIJsonResponse_log:
  "snd (parseAIJsonResponse parse text) =
     (case fst (parseAIJsonResponse parse text) of
        Inr v \<Rightarrow> []
      | Inl e \<Rightarrow> [Logged_error e, Logged_text (take 500 text)])"
  unfolding parseAIJsonResponse_def Let_def
  by (simp split: sum.split)



lemma objectBounds_Some:
  assumes "objectBounds s = Some (i, j)"
  shows "i < j \<and> j < length s \<and> s ! i = CHR ''{'' \<and> s ! j = CHR ''}''
         \<and> (\<forall>k<i. s ! k \<noteq> CHR ''{'') \<and> (\<forall>k. j < k \<and> k < length s \<longrightarrow> s ! k \<noteq> CHR ''}'')"
proof -
  from assms have ij: "indexOf s CHR ''{'' = Some i" "lastIndexOf s CHR ''}'' = Some j" "i \<le> j"
    by (auto simp: objectBounds_def split: option.splits if_splits)
  note f = indexOf_first[OF ij(1)] and l = lastIndexOf_last[OF ij(2)]
  have "i \<noteq> j" using f l by auto
  then show ?thesis using f l ij(3) by auto
qed

lemma arrayBounds_Some:
  assumes "arrayBounds s = Some (i, j)"
  shows "i < j \<and> j < length s \<and> s ! i = CHR ''['' \<and> s ! j = CHR '']''
         \<and> (\<forall>k<i. s ! k \<noteq> CHR ''['') \<and> (\<forall>k. j < k \<and> k < length s \<longrightarrow> s ! k \<noteq> CHR '']'')"
proof -
  from assms have ij: "indexOf s CHR ''['' = Some i" "lastIndexOf s CHR '']'' = Some j" "i < j"
    by (auto simp: arrayBounds_def split: option.splits if_splits)
  note f = indexOf_first[OF ij(1)] and l = lastIndexOf_last[OF ij(2)]
  show ?thesis using f l ij(3) by auto
qed

lemma objectBounds_None:
  "objectBounds s = None \<longleftrightarrow>
     CHR ''{'' \<notin> set s \<or> CHR ''}'' \<notin> set s
     \<or> (\<exists>i j. indexOf s CHR ''{'' = Some i \<and> lastIndexOf s CHR ''}'' = Some j \<and> j < i)"
proof -
  have a: "CHR ''{'' \<notin> set s \<longleftrightarrow> indexOf s CHR ''{'' = None"
    by (simp add: indexOf_None)
  have b: "CHR ''}'' \<notin> set s \<longleftrightarrow> lastIndexOf s CHR ''}'' = None"
    by (simp add: lastIndexOf_None)
  show ?thesis unfolding a b
    by (auto simp: objectBounds_def split: option.splits)
qed

lemma indexOf_append:
  assumes "c \<notin> set pre"
  shows "indexOf (pre @ c # rest) c = Some (length pre)"
  using assms by (induction pre) auto

lemma lastIndexOf_append:
  assumes "c \<notin> set post"
  shows "lastIndexOf (xs @ c # post) c = Some (length xs)"
proof (induction xs)
  case Nil
  have "lastIndexOf post c = None" using assms by (simp add: lastIndexOf_None)
  then show ?case by simp
next
  case (Cons x xs)
  then show ?case by simp
qed

lemma objectBounds_embedded:
  assumes "CHR ''{'' \<notin> set pre" "CHR ''}'' \<notin> set post"
  shows "objectBounds (pre @ [CHR ''{''] @ body @ [CHR ''}''] @ post)
           = Some (length pre, length pre + length body + 1)"
proof -
  have i: "indexOf (pre @ [CHR ''{''] @ body @ [CHR ''}''] @ post) CHR ''{'' = Some (length pre)"
    using indexOf_append[OF assms(1), of "body @ [CHR ''}''] @ post"] by simp
  have j: "lastIndexOf (pre @ [CHR ''{''] @ body @ [CHR ''}''] @ post) CHR ''}''
             = Some (length pre + length body + 1)"
    using lastIndexOf_append[OF assms(2), of "pre @ [CHR ''{''] @ body"] by simp
  show ?thesis unfolding objectBounds_def i j by simp
qed

lemma substring_embedded:
  "substring (pre @ [CHR ''{''] @ body @ [CHR ''}''] @ post) (length pre) (length pre + length body + 1 + 1)
     = [CHR ''{''] @ body @ [CHR ''}'']"
  by (simp add: substring_def)

lemma parseAIJsonResponse_embedded:
  assumes "trim (stripFences text) = pre @ [CHR ''{''] @ body @ [CHR ''}''] @ post"
    and "CHR ''{'' \<notin> set pre" "CHR ''}'' \<notin> set post"
  shows "fst (parseAIJsonResponse parse text) = parse ([CHR ''{''] @ body @ [CHR ''}''])"
  unfolding parseAIJsonResponse_result Let_def assms(1) objectBounds_embedded[OF assms(2,3)]
  using substring_embedded[of pre body post] by simp

text \<open>
  C8 (amended): given any raw string, the sanitizer strips the code-fence markers and trims
  the text; it parses the substring from the first opening brace to the last closing brace
  when the closing brace comes after the opening one; when there are no such object
  boundaries it does the same with square brackets; when neither exists it raises the error
  "No valid JSON found in AI response". Whenever it raises (this error, or the error of the
  JSON parser) it first logs the error and the first 500 characters of the raw response; the
  error itself does not carry that copy. An object text, from an opening to a closing brace,
  reaches the parser unchanged whenever, after stripping and trimming, no opening brace
  stands before it and no closing brace stands after it.
\<close>

theorem parseAIJsonResponse_cases:
  "fst (parseAIJsonResponse parse text) =
     (let cleaned = trim (stripFences text)
      in case objectBounds cleaned of
           Some (i, j) \<Rightarrow> parse (substring cleaned i (j + 1))
         | None \<Rightarrow>
             (case arrayBounds cleaned of
                Some (i, j) \<Rightarrow> parse (substring cleaned i (j + 1))
              | None \<Rightarrow> Inl (Error ''No valid JSON found in AI response'')))
   \<and> snd (parseAIJsonResponse parse text) =
     (case fst (parseAIJsonResponse parse text) of
        Inr v \<Rightarrow> []
      | Inl e \<Rightarrow> [Logged_error e, Logged_text (take 500 text)])
   \<and> length (take 500 text) \<le> 500
   \<and> (\<forall>pre body post.
         trim (stripFences text) = pre @ [CHR ''{''] @ body @ [CHR ''}''] @ post
         \<and> CHR ''{'' \<notin> set pre \<and> CHR ''}'' \<notin> set post
         \<longrightarrow> fst (parseAIJsonResponse parse text) = parse ([CHR ''{''] @ body @ [CHR ''}'']))"
  using parseAIJsonResponse_result[of parse "text"] parseAIJsonResponse_log[of parse "text"]
    parseAIJsonResponse_embedded[of "text" _ _ _ parse]
  by simp

lemma cleaned_fenced:
  "trim (stripFences ''```json\<newline>{\"a\":1}\<newline>```'') = ''{\"a\":1}''"
  by code_simp

lemma cleaned_in_prose:
  "trim (stripFences ''blah {\"a\":[1,2]} blah'') = ''blah {\"a\":[1,2]} blah''"
  by code_simp

text \<open>
  Witness for C8, the two positive examples of the specification with a parser that returns
  the text it is given: the fenced object, and the object inside prose without braces.
\<close>

theorem parseAIJsonResponse_cases_witness:
  "fst (parseAIJsonResponse (\<lambda>s. Inr s) ''```json\<newline>{\"a\":1}\<newline>```'')
     = (Inr ''{\"a\":1}'' :: error + string)
   \<and> fst (parseAIJsonResponse (\<lambda>s. Inr s) ''blah {\"a\":[1,2]} blah'')
     = (Inr ''{\"a\":[1,2]}'' :: error + string)"
proof
  have 1: "trim (stripFences ''```json\<newline>{\"a\":1}\<newline>```'')
             = [] @ [CHR ''{''] @ ''\"a\":1'' @ [CHR ''}''] @ []
           \<and> CHR ''{'' \<notin> set [] \<and> CHR ''}'' \<notin> set []"
    by (simp add: cleaned_fenced)
  from parseAIJsonResponse_cases[of "\<lambda>s. Inr s" "''```json\<newline>{\"a\":1}\<newline>```''"] 1
  have "fst (parseAIJsonResponse (\<lambda>s. Inr s) ''```json\<newline>{\"a\":1}\<newline>```'')
          = (Inr ([CHR ''{''] @ ''\"a\":1'' @ [CHR ''}'']) :: error + string)"
    by blast
  then show "fst (parseAIJsonResponse (\<lambda>s. Inr s) ''```json\<newline>{\"a\":1}\<newline>```'')
     = (Inr ''{\"a\":1}'' :: error + string)" by simp
  have 2: "trim (stripFences ''blah {\"a\":[1,2]} blah'')
             = ''blah '' @ [CHR ''{''] @ ''\"a\":[1,2]'' @ [CHR ''}''] @ '' blah''
           \<and> CHR ''{'' \<notin> set ''blah '' \<and> CHR ''}'' \<notin> set '' blah''"
    by (simp add: cleaned_in_prose)
  from parseAIJsonResponse_cases[of "\<lambda>s. Inr s" "''blah {\"a\":[1,2]} blah''"] 2
  have "fst (parseAIJsonResponse (\<lambda>s. Inr s) ''blah {\"a\":[1,2]} blah'')
          = (Inr ([CHR ''{''] @ ''\"a\":[1,2]'' @ [CHR ''}'']) :: error + string)"
    by blast
  then show "fst (parseAIJsonResponse (\<lambda>s. Inr s) ''blah {\"a\":[1,2]} blah'')
     = (Inr ''{\"a\":[1,2]}'' :: error + string)" by simp
qed

text \<open>
  The whole results for the same inputs and for an array. Surroundings that contain braces
  are not removed: an array of two objects reaches the parser without its brackets.
\<close>

lemma parseAIJsonResponse_fenced:
  "parseAIJsonResponse (\<lambda>s. Inr s) ''```json\<newline>{\"a\":1}\<newline>```''
     = (Inr ''{\"a\":1}'' :: error + string, [])"
  by code_simp

lemma parseAIJsonResponse_in_prose:
  "parseAIJsonResponse (\<lambda>s. Inr s) ''blah {\"a\":[1,2]} blah''
     = (Inr ''{\"a\":[1,2]}'' :: error + string, [])"
  by code_simp

lemma parseAIJsonResponse_array:
  "parseAIJsonResponse (\<lambda>s. Inr s) ''scores: [1, 2, 3].''
     = (Inr ''[1, 2, 3]'' :: error + string, [])"
  by code_simp

lemma parseAIJsonResponse_two_objects:
  "fst (parseAIJsonResponse (\<lambda>s. Inr s) ''[{},{}]'') = (Inr ''{},{}'' :: error + string)"
  by code_simp

section \<open>The lexical skills score\<close>

lemma to_double_dyadic:
  assumes "\<bar>m\<bar> < 2 ^ 53" "- 1074 \<le> k" "k \<le> 0"
  shows "to_double (of_int m * 2 powi k) = Fin (of_int m * 2 powi k)"
proof -
  have "(of_int \<bar>m\<bar> :: rat) \<le> of_int (2 ^ 60)" using assms(1) by (simp only: of_int_le_iff) simp
  then have m: "\<bar>of_int m :: rat\<bar> \<le> 2 ^ 60" by simp
  have "(2::rat) powi k \<le> 2 powi 0" using assms(3) by (intro power_int_increasing) auto
  then have "\<bar>of_int m :: rat\<bar> * 2 powi k \<le> 2 ^ 60 * 1" using m by (intro mult_mono) auto
  then have "\<bar>of_int m * 2 powi k :: rat\<bar> \<le> 2 ^ 60" by (simp add: abs_mult)
  then have "to_double (of_int m * 2 powi k) = Fin (rnd64 (of_int m * 2 powi k))"
    by (intro to_double_Fin small_lt_huge)
  then show ?thesis by (simp add: rnd64_dyadic[OF assms(1,2)])
qed








lemma rnd64_one: "rnd64 1 = 1"
  using rnd64_of_int[of 1] by simp

lemma rnd64_hundred: "rnd64 100 = 100"
  using rnd64_of_int[of 100] by simp

lemma unit_fraction:
  assumes "0 \<le> q" "q \<le> 1"
  shows "0 \<le> rnd64 q" "rnd64 q \<le> 1" "to_double q = Fin (rnd64 q)"
proof -
  show "0 \<le> rnd64 q" using assms by (intro rnd64_nonneg)
  have "rnd64 q \<le> rnd64 1" using assms by (intro rnd64_mono_nonneg) auto
  then show "rnd64 q \<le> 1" by (simp add: rnd64_one)
  have "\<bar>q\<bar> \<le> 2 ^ 60" using assms by simp
  then show "to_double q = Fin (rnd64 q)" by (intro to_double_Fin small_lt_huge)
qed

lemma times_hundred:
  assumes "0 \<le> x" "x \<le> 1"
  shows "0 \<le> rnd64 (x * 100)" "rnd64 (x * 100) \<le> 100" "to_double (x * 100) = Fin (rnd64 (x * 100))"
proof -
  have b: "0 \<le> x * 100" "x * 100 \<le> 100" using assms by simp_all
  show "0 \<le> rnd64 (x * 100)" using b by (intro rnd64_nonneg)
  have "rnd64 (x * 100) \<le> rnd64 100" using b by (intro rnd64_mono_nonneg) auto
  then show "rnd64 (x * 100) \<le> 100" by (simp add: rnd64_hundred)
  have "\<bar>x * 100\<bar> \<le> 2 ^ 60" using b by simp
  then show "to_double (x * 100) = Fin (rnd64 (x * 100))" by (intro to_double_Fin small_lt_huge)
qed








section \<open>The experience score\<close>

lemma to_double_int:
  assumes "\<bar>m\<bar> < 2 ^ 53"
  shows "to_double (of_int m) = Fin (of_int m)"
  using to_double_dyadic[OF assms, of 0] by simp

lemma totalMonthsLoop_exact:
  assumes "\<bar>a\<bar> + sum_list (map abs (monthsList exps)) < 2 ^ 53"
  shows "totalMonthsLoop exps (Fin (of_int a)) = Fin (of_int (a + sum_list (monthsList exps)))"
  using assms
proof (induction exps arbitrary: a)
  case Nil
  then show ?case by simp
next
  case (Cons entry rest)
  show ?case
  proof (cases "startDate entry")
    case None
    then show ?thesis using Cons by simp
  next
    case (Some startD)
    show ?thesis
    proof (cases "endDate entry")
      case None
      then show ?thesis using Cons Some by simp
    next
      case (Some endD)
      define m where "m = (fullYear endD - fullYear startD) * 12 + (month endD - month startD)"
      have ml: "monthsList (entry # rest) = m # monthsList rest"
        using \<open>startDate entry = Some startD\<close> Some by (simp add: m_def)
      have b: "\<bar>a\<bar> + \<bar>m\<bar> + sum_list (map abs (monthsList rest)) < 2 ^ 53"
        using Cons.prems unfolding ml by simp
      have nonneg: "0 \<le> sum_list (map abs (monthsList rest))"
        by (rule sum_list_nonneg) auto
      have mb: "\<bar>m\<bar> < 2 ^ 53" and sb: "\<bar>a + m\<bar> < 2 ^ 53" using b nonneg by linarith+
      have nm: "num m = Fin (of_int m)" by (rule num_int[OF mb])
      have add: "jadd (Fin (of_int a)) (Fin (of_int m)) = Fin (of_int (a + m))"
        using to_double_int[OF sb] by simp
      have "\<bar>a + m\<bar> + sum_list (map abs (monthsList rest)) < 2 ^ 53" using b by linarith
      from Cons.IH[OF this]
      have "totalMonthsLoop rest (Fin (of_int (a + m))) = Fin (of_int (a + m + sum_list (monthsList rest)))" .
      moreover have "totalMonthsLoop (entry # rest) (Fin (of_int a))
                       = totalMonthsLoop rest (jadd (Fin (of_int a)) (num m))"
        using \<open>startDate entry = Some startD\<close> Some by (simp add: m_def)
      ultimately show ?thesis unfolding ml nm add by (simp add: add.assoc)
    qed
  qed
qed

lemma round_near_fraction:
  fixes y e :: rat and N D :: int
  assumes D: "0 < D" and y: "\<bar>y + 1 / 2 - of_int N / of_int D\<bar> \<le> e" and e: "e * of_int D < 1"
  shows "\<lfloor>y + 1 / 2\<rfloor> = N div D \<or> (D dvd N \<and> \<lfloor>y + 1 / 2\<rfloor> = N div D - 1)"
proof -
  define F where "F = N div D"
  define j where "j = N mod D"
  have N: "N = D * F + j" and j: "0 \<le> j" "j < D" using D by (simp_all add: F_def j_def)
  have Dr: "(0::rat) < of_int D" using D by simp
  have v: "(of_int N :: rat) / of_int D = of_int F + of_int j / of_int D"
    using Dr by (simp add: N field_simps)
  have e1: "e < 1 / of_int D" using e Dr by (simp add: field_simps)
  have e0: "0 \<le> e" using y by linarith
  show ?thesis
  proof (cases "j = 0")
    case True
    then have dv: "D dvd N" using N by simp
    have vv: "(of_int N :: rat) / of_int D = of_int F" using v True by simp
    have "1 / (of_int D :: rat) \<le> 1" using D by simp
    then have e2: "e < 1" using e1 by linarith
    have "of_int F - 1 \<le> y + 1 / 2" using y e2 unfolding vv by linarith
    then have "of_int (F - 1) \<le> y + 1 / 2" by simp
    then have l1: "F - 1 \<le> \<lfloor>y + 1 / 2\<rfloor>" by (simp only: le_floor_iff)
    have "y + 1 / 2 < of_int F + 1" using y e2 unfolding vv by linarith
    then have "y + 1 / 2 < of_int (F + 1)" by simp
    then have l2: "\<lfloor>y + 1 / 2\<rfloor> < F + 1" by (simp only: floor_less_iff)
    show ?thesis using l1 l2 dv unfolding F_def by linarith
  next
    case False
    then have j1: "1 \<le> j" "j \<le> D - 1" using j by simp_all
    have "(of_int 1 :: rat) \<le> of_int j" "(of_int j :: rat) \<le> of_int (D - 1)"
      using j1 by (simp_all only: of_int_le_iff)
    then have "1 / of_int D \<le> (of_int j :: rat) / of_int D"
         "(of_int j :: rat) / of_int D \<le> (of_int D - 1) / of_int D"
      using Dr by (simp_all add: divide_right_mono)
    moreover have "((of_int D :: rat) - 1) / of_int D = 1 - 1 / of_int D"
      using Dr by (simp add: field_simps)
    ultimately have jb: "1 / of_int D \<le> (of_int j :: rat) / of_int D"
        "(of_int j :: rat) / of_int D \<le> 1 - 1 / of_int D" by simp_all
    have "of_int F \<le> y + 1 / 2" "y + 1 / 2 < of_int F + 1"
      using y e1 jb unfolding v by linarith+
    then have "\<lfloor>y + 1 / 2\<rfloor> = F" by (simp add: floor_unique)
    then show ?thesis by (simp add: F_def)
  qed
qed


lemma abs_sum_list_le: "\<bar>sum_list xs\<bar> \<le> sum_list (map abs (xs :: int list))"
  by (induction xs) auto

lemma round_months:
  assumes "\<bar>M\<bar> < 2 ^ 53"
  shows "\<lfloor>rnd64 (of_int M / 12) + 1 / 2\<rfloor> = (M + 6) div 12"
proof (cases "12 dvd M + 6")
  case True
  then obtain F where F: "M + 6 = 12 * F" by (auto simp: dvd_def)
  then have M: "M = 6 * (2 * F - 1)" by simp
  have q: "(of_int M :: rat) / 12 = of_int (2 * F - 1) * 2 powi (- 1)"
    unfolding M by (simp add: power_int_minus)
  have "\<bar>2 * F - 1\<bar> < 2 ^ 53" using assms unfolding M by (simp add: abs_mult)
  then have "rnd64 (of_int (2 * F - 1) * 2 powi (- 1)) = of_int (2 * F - 1) * 2 powi (- 1)"
    by (rule rnd64_dyadic) simp
  then have "rnd64 (of_int M / 12) + 1 / 2 = of_int F"
    unfolding q by (simp add: power_int_minus)
  then have "\<lfloor>rnd64 (of_int M / 12) + 1 / 2\<rfloor> = F" by (simp only: floor_of_int)
  then show ?thesis using F by simp
next
  case False
  have "(of_int \<bar>M\<bar> :: rat) < of_int (2 ^ 53)" using assms by (simp only: of_int_less_iff)
  then have "\<bar>of_int M :: rat\<bar> < 2 ^ 53" by simp
  then have "\<bar>of_int M / 12 :: rat\<bar> < 2 ^ 50" by simp
  then have "\<bar>of_int M / 12 :: rat\<bar> < 2 powi 50" by simp
  then have "\<bar>rnd64 (of_int M / 12) - of_int M / 12\<bar> \<le> 2 powi (50 - 54)"
    by (rule rnd64_error_le) simp
  then have "\<bar>rnd64 (of_int M / 12) - of_int M / 12\<bar> \<le> 1 / 16"
    by (simp add: power_int_minus)
  then have "\<bar>rnd64 (of_int M / 12) + 1 / 2 - of_int (M + 6) / of_int 12\<bar> \<le> 1 / 16"
    by (simp add: add_divide_distrib)
  from round_near_fraction[OF _ this] False show ?thesis by simp
qed

lemma calculateTotalExperience_years:
  assumes "sum_list (map abs (monthsList exps)) < 2 ^ 53"
  shows "calculateTotalExperience exps = Fin (of_int ((sum_list (monthsList exps) + 6) div 12))"
proof -
  define M where "M = sum_list (monthsList exps)"
  have Mb: "\<bar>M\<bar> < 2 ^ 53" using abs_sum_list_le[of "monthsList exps"] assms by (simp add: M_def)
  have "\<bar>0::int\<bar> + sum_list (map abs (monthsList exps)) < 2 ^ 53" using assms by simp
  from totalMonthsLoop_exact[OF this]
  have loop: "totalMonthsLoop exps (num 0) = Fin (of_int M)" by (simp add: num_0 M_def)
  have n12: "num 12 = Fin 12" by (simp add: num_int)
  have "\<bar>M\<bar> \<le> 2 ^ 53" using Mb by simp
  then have "(of_int \<bar>M\<bar> :: rat) \<le> of_int (2 ^ 53)" by (simp only: of_int_le_iff)
  then have "\<bar>of_int M :: rat\<bar> \<le> 2 ^ 53" by simp
  then have "\<bar>of_int M / 12 :: rat\<bar> \<le> 2 ^ 60" by simp
  then have td: "to_double (of_int M / 12) = Fin (rnd64 (of_int M / 12))"
    by (intro to_double_Fin small_lt_huge)
  show ?thesis
    unfolding calculateTotalExperience_def loop n12 M_def[symmetric]
    using td round_months[OF Mb] by simp
qed


lemma ratio_score:
  assumes "0 \<le> t" "t < r" "r < 2 ^ 31"
  shows "\<exists>n. jround (jmul (jdiv (Fin (of_int t)) (Fin (of_int r))) (Fin 100)) = Fin (of_int n)
           \<and> (n = (200 * t + r) div (2 * r)
                \<or> (2 * r dvd 200 * t + r \<and> n = (200 * t + r) div (2 * r) - 1))"
proof -
  have r0: "0 < r" using assms by simp
  have rr: "(0::rat) < of_int r" using r0 by simp
  define q :: rat where "q = of_int t / of_int r"
  have q0: "0 \<le> q" using assms(1) rr by (simp add: q_def)
  have "(of_int t :: rat) < of_int r" using assms(2) by (simp only: of_int_less_iff)
  then have q1: "q < 1" using rr by (simp add: q_def)
  note u = unit_fraction[OF q0 less_imp_le[OF q1]]
  define x where "x = rnd64 q"
  have "\<bar>q\<bar> < 2 powi 0" using q0 q1 by simp
  then have "\<bar>rnd64 q - q\<bar> \<le> 2 powi (0 - 54)" by (rule rnd64_error_le) simp
  then have ex: "\<bar>x - q\<bar> \<le> 1 / 2 ^ 54" by (simp add: x_def power_int_minus divide_simps)
  note h = times_hundred[OF u(1,2), folded x_def]
  define y where "y = rnd64 (x * 100)"
  have "\<bar>x * 100\<bar> < 128" using u(1,2) by (simp add: x_def)
  from rnd64_small(1)[OF this] have ey: "\<bar>y - x * 100\<bar> \<le> 1 / 2 ^ 47" by (simp add: y_def)
  have "x * 100 - q * 100 = (x - q) * 100" by (simp add: algebra_simps)
  then have "\<bar>x * 100 - q * 100\<bar> = \<bar>x - q\<bar> * \<bar>100\<bar>" by (simp only: abs_mult)
  then have "\<bar>x * 100 - q * 100\<bar> = \<bar>x - q\<bar> * 100" by simp
  also have "\<dots> \<le> (1 / 2 ^ 54) * 100" using ex by (intro mult_right_mono) simp_all
  finally have "\<bar>x * 100 - q * 100\<bar> \<le> 100 / 2 ^ 54" by simp
  then have eq: "\<bar>y - q * 100\<bar> \<le> 1 / 2 ^ 46" by (rule abs_chain[OF ey]) simp
  have target: "(of_int (200 * t + r) :: rat) / of_int (2 * r) = q * 100 + 1 / 2"
    using rr by (simp add: q_def field_simps)
  have e1: "\<bar>y + 1 / 2 - of_int (200 * t + r) / of_int (2 * r)\<bar> \<le> 1 / 2 ^ 46"
    unfolding target using eq by simp
  have "2 * r \<le> 2 ^ 32" using assms(3) by simp
  then have "(of_int (2 * r) :: rat) \<le> of_int (2 ^ 32)" by (simp only: of_int_le_iff)
  then have "(1 / 2 ^ 46) * (of_int (2 * r) :: rat) \<le> (1 / 2 ^ 46) * of_int (2 ^ 32)"
    by (intro mult_left_mono) simp_all
  also have "\<dots> < 1" by simp
  finally have e2: "(1 / 2 ^ 46) * (of_int (2 * r) :: rat) < 1" .
  have D: "0 < 2 * r" using r0 by simp
  from round_near_fraction[OF D e1 e2]
  have fl: "\<lfloor>y + 1 / 2\<rfloor> = (200 * t + r) div (2 * r)
          \<or> (2 * r dvd 200 * t + r \<and> \<lfloor>y + 1 / 2\<rfloor> = (200 * t + r) div (2 * r) - 1)" .
  have rz: "(of_int r :: rat) \<noteq> 0" using r0 by simp
  have "jround (jmul (jdiv (Fin (of_int t)) (Fin (of_int r))) (Fin 100)) = Fin (of_int \<lfloor>y + 1 / 2\<rfloor>)"
    using rz u(3) h(3) by (simp add: q_def[symmetric] x_def[symmetric] y_def[symmetric])
  then show ?thesis using fl by blast
qed

lemma exact_ratio:
  assumes "0 < r"
  shows "\<lfloor>100 * of_int t / of_int r + 1 / 2 :: rat\<rfloor> = (200 * t + r) div (2 * r)"
    and "2 * r dvd 200 * t + r
         \<Longrightarrow> (100 * of_int t / of_int r + 1 / 2 :: rat) = of_int \<lfloor>100 * of_int t / of_int r + 1 / 2 :: rat\<rfloor>"
proof -
  have rr: "(0::rat) < of_int r" using assms by simp
  have target: "(100 * of_int t / of_int r + 1 / 2 :: rat) = of_int (200 * t + r) / of_int (2 * r)"
    using rr by (simp add: field_simps)
  show fl: "\<lfloor>100 * of_int t / of_int r + 1 / 2 :: rat\<rfloor> = (200 * t + r) div (2 * r)"
    unfolding target by (rule floor_divide_of_int_eq)
  assume "2 * r dvd 200 * t + r"
  then obtain k where k: "200 * t + r = 2 * r * k" by (auto simp: dvd_def)
  have "(of_int (200 * t + r) :: rat) / of_int (2 * r) = of_int k"
    unfolding k using rr by simp
  moreover have "(200 * t + r) div (2 * r) = k" unfolding k using assms by simp
  ultimately show "(100 * of_int t / of_int r + 1 / 2 :: rat) = of_int \<lfloor>100 * of_int t / of_int r + 1 / 2 :: rat\<rfloor>"
    unfolding fl unfolding target by simp
qed

lemma exact_years: "\<lfloor>of_int M / 12 + 1 / 2 :: rat\<rfloor> = (M + 6) div 12"
proof -
  have e: "(of_int M / 12 + 1 / 2 :: rat) = of_int (M + 6) / of_int 12" by simp
  show ?thesis unfolding e by (rule floor_divide_of_int_eq)
qed


text \<open>
  Counterexample to C5 as stated: the job has an experience requirement without a minimum and
  the resume lists no experience; the score is 0, not 100.
\<close>

theorem calculateExperienceMatch_counterexample:
  "calculateExperienceMatch (Some []) (Some \<lparr>min_years = None\<rparr>) = Fin 0
   \<and> Fin 0 \<noteq> Fin 100"
  by (simp add: calculateExperienceMatch_def num_0)

text \<open>
  C5 (amended): the candidate's total experience is the sum, over the entries with both a
  start and an end date, of (end.year - start.year) * 12 + (end.month - start.month) months,
  divided by 12 and rounded half up to whole years. The experience score is 100 when the job
  has no experience requirement at all, and 0 when it has one (with or without a minimum)
  and the resume lists no experience. Otherwise, with the minimum taken as 0 when absent, the
  score is 100 when the years reach the minimum; for non-negative years below the minimum it
  is \<open>(years / minimum) * 100\<close> computed in doubles and rounded, which is the exact quotient
  \<open>100 * years / minimum\<close> rounded half up, or one less than that when the exact quotient
  is a tie. The sums of months are taken below \<open>2 ^ 53\<close> and the minimum below \<open>2 ^ 31\<close>.
\<close>

theorem calculateExperienceMatch_cases:
  assumes "sum_list (map abs (monthsList exps)) < 2 ^ 53"
  shows "calculateTotalExperience exps
           = Fin (of_int \<lfloor>of_int (sum_list (monthsList exps)) / 12 + 1 / 2 :: rat\<rfloor>)
       \<and> calculateExperienceMatch anyExperience None = Fin 100
       \<and> calculateExperienceMatch None (Some je) = Fin 0
       \<and> calculateExperienceMatch (Some []) (Some je) = Fin 0
       \<and> (exps \<noteq> [] \<longrightarrow>
            (let years = \<lfloor>of_int (sum_list (monthsList exps)) / 12 + 1 / 2 :: rat\<rfloor>;
                 required = (case min_years je of None \<Rightarrow> 0 | Some m \<Rightarrow> m)
             in (required \<le> years \<and> \<bar>required\<bar> < 2 ^ 53
                   \<longrightarrow> calculateExperienceMatch (Some exps) (Some je) = Fin 100)
              \<and> (0 \<le> years \<and> years < required \<and> required < 2 ^ 31
                   \<longrightarrow> (\<exists>n. calculateExperienceMatch (Some exps) (Some je) = Fin (of_int n)
                          \<and> (n = \<lfloor>100 * of_int years / of_int required + 1 / 2 :: rat\<rfloor>
                               \<or> ((100 * of_int years / of_int required + 1 / 2 :: rat)
                                     = of_int \<lfloor>100 * of_int years / of_int required + 1 / 2 :: rat\<rfloor>
                                   \<and> n = \<lfloor>100 * of_int years / of_int required + 1 / 2 :: rat\<rfloor> - 1))))))"
proof -
  define years where "years = \<lfloor>of_int (sum_list (monthsList exps)) / 12 + 1 / 2 :: rat\<rfloor>"
  define required where "required = (case min_years je of None \<Rightarrow> 0 | Some m \<Rightarrow> m)"
  have total: "calculateTotalExperience exps = Fin (of_int years)"
    unfolding years_def exact_years by (rule calculateTotalExperience_years[OF assms])
  have none: "calculateExperienceMatch anyExperience None = Fin 100"
    by (simp add: calculateExperienceMatch_def num_100)
  have empty: "calculateExperienceMatch None (Some je) = Fin 0"
       "calculateExperienceMatch (Some []) (Some je) = Fin 0"
    by (simp_all add: calculateExperienceMatch_def num_0)
  have reach: "calculateExperienceMatch (Some exps) (Some je) = Fin 100"
    if "exps \<noteq> []" "required \<le> years" "\<bar>required\<bar> < 2 ^ 53"
  proof -
    have nr: "num required = Fin (of_int required)" by (rule num_int[OF that(3)])
    show ?thesis
      using that(1,2)
      by (simp add: calculateExperienceMatch_def Let_def total required_def[symmetric] nr num_100)
  qed
  have below: "\<exists>n. calculateExperienceMatch (Some exps) (Some je) = Fin (of_int n)
                 \<and> (n = \<lfloor>100 * of_int years / of_int required + 1 / 2 :: rat\<rfloor>
                      \<or> ((100 * of_int years / of_int required + 1 / 2 :: rat)
                            = of_int \<lfloor>100 * of_int years / of_int required + 1 / 2 :: rat\<rfloor>
                          \<and> n = \<lfloor>100 * of_int years / of_int required + 1 / 2 :: rat\<rfloor> - 1))"
    if "exps \<noteq> []" "0 \<le> years" "years < required" "required < 2 ^ 31"
  proof -
    have r0: "0 < required" using that by simp
    have "\<bar>required\<bar> < 2 ^ 53" using that(4) r0 by simp
    then have nr: "num required = Fin (of_int required)" by (rule num_int)
    have m: "calculateExperienceMatch (Some exps) (Some je)
               = jround (jmul (jdiv (Fin (of_int years)) (Fin (of_int required))) (Fin 100))"
      using that(1,3)
      by (simp add: calculateExperienceMatch_def Let_def total required_def[symmetric] nr num_100)
    from ratio_score[OF that(2,3,4)] obtain n where
      n: "jround (jmul (jdiv (Fin (of_int years)) (Fin (of_int required))) (Fin 100)) = Fin (of_int n)"
         "n = (200 * years + required) div (2 * required)
          \<or> (2 * required dvd 200 * years + required \<and> n = (200 * years + required) div (2 * required) - 1)"
      by blast
    show ?thesis
      using n(2) exact_ratio(2)[OF r0, of years] unfolding m n(1) exact_ratio(1)[OF r0]
      by blast
  qed
  show ?thesis
    unfolding Let_def years_def[symmetric] required_def[symmetric]
    using total none empty reach below by blast
qed

text \<open>
  Witness for C5, the two examples of the specification: 24 months are 2 years and score 50
  against a minimum of 4 years; 60 months are 5 years and score 100.
\<close>

theorem calculateExperienceMatch_cases_witness:
  "calculateExperienceMatch
     (Some [\<lparr>startDate = Some \<lparr>fullYear = 2020, month = 0\<rparr>,
             endDate = Some \<lparr>fullYear = 2022, month = 0\<rparr>\<rparr>])
     (Some \<lparr>min_years = Some 4\<rparr>) = Fin 50
   \<and> calculateExperienceMatch
     (Some [\<lparr>startDate = Some \<lparr>fullYear = 2015, month = 2\<rparr>,
             endDate = Some \<lparr>fullYear = 2020, month = 2\<rparr>\<rparr>])
     (Some \<lparr>min_years = Some 4\<rparr>) = Fin 100"
proof
  define e2 where "e2 = [\<lparr>startDate = Some \<lparr>fullYear = 2020, month = 0\<rparr>,
                          endDate = Some \<lparr>fullYear = 2022, month = 0\<rparr>\<rparr>]"
  define e5 where "e5 = [\<lparr>startDate = Some \<lparr>fullYear = 2015, month = 2\<rparr>,
                          endDate = Some \<lparr>fullYear = 2020, month = 2\<rparr>\<rparr>]"
  define je where "je = \<lparr>min_years = Some 4\<rparr>"
  have m2: "monthsList e2 = [24]" and m5: "monthsList e5 = [60]" by (simp_all add: e2_def e5_def)
  have y2: "\<lfloor>of_int (sum_list (monthsList e2)) / 12 + 1 / 2 :: rat\<rfloor> = 2"
    unfolding exact_years m2 by simp
  have y5: "\<lfloor>of_int (sum_list (monthsList e5)) / 12 + 1 / 2 :: rat\<rfloor> = 5"
    unfolding exact_years m5 by simp
  have b2: "sum_list (map abs (monthsList e2)) < 2 ^ 53" unfolding m2 by simp
  have b5: "sum_list (map abs (monthsList e5)) < 2 ^ 53" unfolding m5 by simp
  have f: "\<lfloor>100 * of_int 2 / of_int 4 + 1 / 2 :: rat\<rfloor> = 50"
    using exact_ratio(1)[of 4 2] by simp
  have nt: "(100 * of_int 2 / of_int 4 + 1 / 2 :: rat) \<noteq> of_int 50" by simp
  have ne: "e2 \<noteq> []" "e5 \<noteq> []" by (simp_all add: e2_def e5_def)
  from calculateExperienceMatch_cases[OF b2, where je = je] ne(1)
  have "\<exists>n. calculateExperienceMatch (Some e2) (Some je) = Fin (of_int n)
          \<and> (n = \<lfloor>100 * of_int 2 / of_int 4 + 1 / 2 :: rat\<rfloor>
               \<or> ((100 * of_int 2 / of_int 4 + 1 / 2 :: rat)
                     = of_int \<lfloor>100 * of_int 2 / of_int 4 + 1 / 2 :: rat\<rfloor>
                   \<and> n = \<lfloor>100 * of_int 2 / of_int 4 + 1 / 2 :: rat\<rfloor> - 1))"
    unfolding Let_def y2 by (simp add: je_def)
  then have "calculateExperienceMatch (Some e2) (Some je) = Fin 50"
    unfolding f using nt by auto
  then show "calculateExperienceMatch
     (Some [\<lparr>startDate = Some \<lparr>fullYear = 2020, month = 0\<rparr>,
             endDate = Some \<lparr>fullYear = 2022, month = 0\<rparr>\<rparr>])
     (Some \<lparr>min_years = Some 4\<rparr>) = Fin 50"
    unfolding e2_def je_def .
  from calculateExperienceMatch_cases[OF b5, where je = je] ne(2)
  have "calculateExperienceMatch (Some e5) (Some je) = Fin 100"
    unfolding Let_def y5 by (simp add: je_def)
  then show "calculateExperienceMatch
     (Some [\<lparr>startDate = Some \<lparr>fullYear = 2015, month = 2\<rparr>,
             endDate = Some \<lparr>fullYear = 2020, month = 2\<rparr>\<rparr>])
     (Some \<lparr>min_years = Some 4\<rparr>) = Fin 100"
    unfolding e5_def je_def .
qed

text \<open>
  A tie that the doubles lose: 23 years against a minimum of 40 are exactly 57.5 percent,
  but \<open>(23 / 40) * 100\<close> is 57.49999999999999 in doubles and the score is 57.
\<close>

lemma ratio_score_tie:
  "jround (jmul (jdiv (Fin 23) (Fin 40)) (Fin 100)) = Fin 57"
  by code_simp

section \<open>The cosine similarity\<close>
















section \<open>The fallback embedding\<close>

lemma set_dedup [simp]: "set (dedup xs) = set xs"
  by (induction xs rule: dedup.induct) auto

lemma dedup_filter_notin:
  assumes "x \<notin> set xs"
  shows "filter (\<lambda>y. y \<noteq> x) xs = xs"
  using assms by (induction xs) auto






lemma set_keyOrder [simp]: "set (keyOrder ks) = set ks"
  by (auto simp: keyOrder_def)










end
